theory Spec2Isabelle
  imports Complex_Main "HOL-Library.Word" "HOL-Library.Signed_Division" "HOL-Library.Monad_Syntax"
begin

unbundle bit_operations_syntax

section \<open>Machine integers of the driver\<close>

text \<open>
  The driver computes with \<open>int32_t\<close> and \<open>uint8_t\<close>.  Both are words here: \<open>+\<close>, \<open>-\<close>
  and \<open>*\<close> wrap around, \<open>sint\<close> reads the two's complement value, \<open><s\<close> is the signed
  comparison and \<open>signed_drop_bit\<close> the arithmetic shift \<open>>>\<close> of a signed value.
\<close>

type_synonym int32 = "32 word"
type_synonym uint8 = "8 word"

text \<open>
  C's \<open>/\<close> and \<open>%\<close> on \<open>int32_t\<close> truncate towards zero (\<open>sdiv\<close> and \<open>smod\<close> on \<open>int\<close>).
  \<open>sdiv32\<close> and \<open>smod32\<close> are the operations for a divisor known to be nonzero.
\<close>

definition sdiv32 :: "int32 \<Rightarrow> int32 \<Rightarrow> int32" where
  "sdiv32 a b = word_of_int (sint a sdiv sint b)"

definition smod32 :: "int32 \<Rightarrow> int32 \<Rightarrow> int32" where
  "smod32 a b = word_of_int (sint a smod sint b)"

text \<open>
  With a divisor that is a run-time value, \<open>/\<close> and \<open>%\<close> are undefined, and trap, in two
  cases: the divisor is zero, or the dividend is \<open>INT32_MIN\<close> (the word \<open>0x80000000\<close>) and the
  divisor is \<open>-1\<close>, where the quotient does not fit \<open>int32_t\<close>.  \<open>None\<close> is that fault, after
  which nothing else of the function runs.
\<close>

definition c_div :: "int32 \<Rightarrow> int32 \<Rightarrow> int32 option" where
  "c_div a b = (if b = 0 \<or> (a = 0x80000000 \<and> b = - 1) then None else Some (sdiv32 a b))"

definition c_mod :: "int32 \<Rightarrow> int32 \<Rightarrow> int32 option" where
  "c_mod a b = (if b = 0 \<or> (a = 0x80000000 \<and> b = - 1) then None else Some (smod32 a b))"

section \<open>Declarations of si5351.h\<close>

text \<open>
  Modelled from the spec: the header \<open>si5351.h\<close> (struct, enum and register-address
  declarations) is not part of the sources.  The two configuration structs carry the fields
  that \<open>si5351.cpp\<close> reads and writes; \<open>allowIntegerMode\<close> is only ever tested for
  truth and assigned 0 or 1 (the spec's \<open>integerModeAllowed: bool\<close>); the R divider is the
  exponent of the spec (\<open>SI5351_R_DIV_1\<close> is 0, \<open>SI5351_R_DIV_64\<close> is 6); each register
  constant is the number in its name, as in the register map of the spec.
\<close>

record si5351PLLConfig_t =
  pll_allowIntegerMode :: bool
  pll_mult :: int32
  pll_num :: int32
  pll_denom :: int32

record si5351OutputConfig_t =
  out_allowIntegerMode :: bool
  out_inverted :: uint8
  out_div :: int32
  out_num :: int32
  out_denom :: int32
  out_rdiv :: uint8

datatype si5351PLL_t = SI5351_PLL_A | SI5351_PLL_B

definition SI5351_R_DIV_1 :: uint8 where "SI5351_R_DIV_1 = 0"
definition SI5351_R_DIV_64 :: uint8 where "SI5351_R_DIV_64 = 6"

definition SI5351_REGISTER_16_CLK0_CONTROL :: uint8 where
  "SI5351_REGISTER_16_CLK0_CONTROL = 16"
definition SI5351_REGISTER_17_CLK1_CONTROL :: uint8 where
  "SI5351_REGISTER_17_CLK1_CONTROL = 17"
definition SI5351_REGISTER_18_CLK2_CONTROL :: uint8 where
  "SI5351_REGISTER_18_CLK2_CONTROL = 18"
definition SI5351_REGISTER_22_CLK6_CONTROL :: uint8 where
  "SI5351_REGISTER_22_CLK6_CONTROL = 22"
definition SI5351_REGISTER_23_CLK7_CONTROL :: uint8 where
  "SI5351_REGISTER_23_CLK7_CONTROL = 23"
definition SI5351_REGISTER_42_MULTISYNTH0_PARAMETERS_1 :: uint8 where
  "SI5351_REGISTER_42_MULTISYNTH0_PARAMETERS_1 = 42"
definition SI5351_REGISTER_50_MULTISYNTH1_PARAMETERS_1 :: uint8 where
  "SI5351_REGISTER_50_MULTISYNTH1_PARAMETERS_1 = 50"
definition SI5351_REGISTER_58_MULTISYNTH2_PARAMETERS_1 :: uint8 where
  "SI5351_REGISTER_58_MULTISYNTH2_PARAMETERS_1 = 58"
definition SI5351_REGISTER_165_CLK0_INITIAL_PHASE_OFFSET :: uint8 where
  "SI5351_REGISTER_165_CLK0_INITIAL_PHASE_OFFSET = 165"
definition SI5351_REGISTER_166_CLK1_INITIAL_PHASE_OFFSET :: uint8 where
  "SI5351_REGISTER_166_CLK1_INITIAL_PHASE_OFFSET = 166"
definition SI5351_REGISTER_167_CLK2_INITIAL_PHASE_OFFSET :: uint8 where
  "SI5351_REGISTER_167_CLK2_INITIAL_PHASE_OFFSET = 167"
definition SI5351_REGISTER_177_PLL_RESET :: uint8 where
  "SI5351_REGISTER_177_PLL_RESET = 177"

section \<open>The register bus\<close>

text \<open>
  \<open>si5351_write\<close> sends one (register, data) pair over I2C.  The bus is the sequence of
  pairs sent so far, oldest first.  The status the function returns comes from the transport
  and is dropped by every caller in \<open>si5351.cpp\<close>, so the model keeps the effect only.
\<close>

type_synonym bus = "(uint8 \<times> uint8) list"

definition si5351_write :: "uint8 \<Rightarrow> uint8 \<Rightarrow> bus \<Rightarrow> bus" where
  "si5351_write reg data s = s @ [(reg, data)]"

text \<open>
  \<open>si5351_writeBulk\<close>: the eight writes of a parameter block.  Each data expression is
  computed in \<open>int\<close> (the \<open>uint8_t\<close> and the enum are promoted) and converted to
  \<open>uint8_t\<close> at the call, which keeps the low eight bits; \<open>baseaddr + k\<close> is converted the
  same way.
\<close>

definition si5351_writeBulk ::
  "uint8 \<Rightarrow> int32 \<Rightarrow> int32 \<Rightarrow> int32 \<Rightarrow> uint8 \<Rightarrow> uint8 \<Rightarrow> bus \<Rightarrow> bus" where
  "si5351_writeBulk baseaddr P1 P2 P3 divBy4 rdiv s0 =
    (let s1 = si5351_write baseaddr (ucast (signed_drop_bit 8 P3 AND 0xFF)) s0;
         s2 = si5351_write (baseaddr + 1) (ucast (P3 AND 0xFF)) s1;
         s3 = si5351_write (baseaddr + 2)
                (ucast ((signed_drop_bit 16 P1 AND 0x3)
                        OR push_bit 2 ((ucast divBy4 :: int32) AND 0x3)
                        OR push_bit 4 ((ucast rdiv :: int32) AND 0x7))) s2;
         s4 = si5351_write (baseaddr + 3) (ucast (signed_drop_bit 8 P1 AND 0xFF)) s3;
         s5 = si5351_write (baseaddr + 4) (ucast (P1 AND 0xFF)) s4;
         s6 = si5351_write (baseaddr + 5)
                (ucast ((signed_drop_bit 12 P3 AND 0xF0) OR (signed_drop_bit 16 P2 AND 0xF))) s5;
         s7 = si5351_write (baseaddr + 6) (ucast (signed_drop_bit 8 P2 AND 0xFF)) s6
     in si5351_write (baseaddr + 7) (ucast (P2 AND 0xFF)) s7)"

section \<open>Programming a PLL and an output\<close>

text \<open>
  \<open>si5351_SetupPLL\<close> (lines 66 to 94).  The two divisions by \<open>denom\<close> come first, so a
  division that faults does so before anything is written.
\<close>

definition si5351_SetupPLL :: "si5351PLL_t \<Rightarrow> si5351PLLConfig_t \<Rightarrow> bus \<Rightarrow> bus option" where
  "si5351_SetupPLL pll conf s0 =
    (let mult = pll_mult conf; num = pll_num conf; denom = pll_denom conf;
         allowIntegerMode = pll_allowIntegerMode conf
     in do {
       q \<leftarrow> c_div (128 * num) denom;
       let P1 = 128 * mult + q - 512;
       P2 \<leftarrow> c_mod (128 * num) denom;
       let P3 = denom;
       let intCtlAddr = (if pll = SI5351_PLL_A then SI5351_REGISTER_22_CLK6_CONTROL
                         else SI5351_REGISTER_23_CLK7_CONTROL);
       let s1 = (if allowIntegerMode \<and> num = 0 \<and> smod32 mult 2 = 0
                 then si5351_write intCtlAddr (push_bit 7 1 OR push_bit 6 1) s0 else s0);
       let baseaddr = (if pll = SI5351_PLL_A then 26 else 34);
       let s2 = si5351_writeBulk baseaddr P1 P2 P3 0 SI5351_R_DIV_1 s1;
       Some (si5351_write SI5351_REGISTER_177_PLL_RESET (push_bit 7 1 OR push_bit 5 1) s2)
     })"

text \<open>
  \<open>si5351_SetupOutput\<close> (lines 106 to 174) returns its \<open>int\<close> status together with the
  bus.  \<open>driveStrength\<close> is the value of the \<open>si5351DriveStrength_t\<close> enumerator passed in.
\<close>

definition si5351_SetupOutput ::
  "uint8 \<Rightarrow> si5351PLL_t \<Rightarrow> uint8 \<Rightarrow> si5351OutputConfig_t \<Rightarrow> uint8 \<Rightarrow> bus \<Rightarrow> (int \<times> bus) option" where
  "si5351_SetupOutput output pllSource driveStrength conf phaseOffset s0 =
    (let dv = out_div conf; num = out_num conf; denom = out_denom conf;
         inverted = out_inverted conf AND 0x01
     in if output > 2 then Some (1, s0)
        else if (\<not> out_allowIntegerMode conf) \<and> (dv <s 8 \<or> (dv = 8 \<and> num = 0))
        then Some (2, s0)
        else do {
          (P1, P2, P3, divBy4) \<leftarrow>
            (if dv = 4 then Some (0, 0, 1, 0x3)
             else do {
               q \<leftarrow> c_div (128 * num) denom;
               r \<leftarrow> c_mod (128 * num) denom;
               Some (128 * dv + q - 512, r, denom, 0)
             });
          let (baseaddr, phaseOffsetRegister, clkControlRegister) =
            (if output = 0 then
               (SI5351_REGISTER_42_MULTISYNTH0_PARAMETERS_1,
                SI5351_REGISTER_165_CLK0_INITIAL_PHASE_OFFSET,
                SI5351_REGISTER_16_CLK0_CONTROL)
             else if output = 1 then
               (SI5351_REGISTER_50_MULTISYNTH1_PARAMETERS_1,
                SI5351_REGISTER_166_CLK1_INITIAL_PHASE_OFFSET,
                SI5351_REGISTER_17_CLK1_CONTROL)
             else if output = 2 then
               (SI5351_REGISTER_58_MULTISYNTH2_PARAMETERS_1,
                SI5351_REGISTER_167_CLK2_INITIAL_PHASE_OFFSET,
                SI5351_REGISTER_18_CLK2_CONTROL)
             else (0, 0, 0));
          let clkControl = 0x0C OR driveStrength;
          let clkControl = clkControl OR push_bit 4 inverted;
          let clkControl = (if pllSource = SI5351_PLL_B then clkControl OR push_bit 5 1
                            else clkControl);
          let clkControl = (if out_allowIntegerMode conf \<and> (num = 0 \<or> dv = 4)
                            then clkControl OR push_bit 6 1 else clkControl);
          let s1 = si5351_write clkControlRegister clkControl s0;
          let s2 = si5351_writeBulk baseaddr P1 P2 P3 divBy4 (out_rdiv conf) s1;
          let s3 = si5351_write phaseOffsetRegister (phaseOffset AND 0x7F) s2;
          Some (0, s3)
        })"

section \<open>The frequency planners\<close>

text \<open>
  The correction statement shared by both planners (lines 200 and 273):
  \<open>Fclk = Fclk - ((Fclk/1000000)*si5351Correction)/100\<close>, in \<open>int32_t\<close> arithmetic.  The
  global \<open>si5351Correction\<close> set by \<open>si5351_Init\<close> is a parameter of the model.
\<close>

definition apply_correction :: "int32 \<Rightarrow> int32 \<Rightarrow> int32" where
  "apply_correction si5351Correction Fclk =
     Fclk - sdiv32 (sdiv32 Fclk 1000000 * si5351Correction) 100"

text \<open>
  Lines 185 to 200 of \<open>si5351_Calc\<close>: the clamp, the scaling by 64 that fixes the R divider,
  then the correction.  The result is the adjusted \<open>Fclk\<close> and the value stored in
  \<open>out_conf->rdiv\<close>.
\<close>

definition Calc_Fclk :: "int32 \<Rightarrow> int32 \<Rightarrow> int32 \<times> uint8" where
  "Calc_Fclk si5351Correction Fclk0 =
    (let Fclk = (if Fclk0 <s 8000 then 8000
                 else if 160000000 <s Fclk0 then 160000000 else Fclk0);
         (Fclk, rdiv) = (if Fclk <s 1000000 then (Fclk * 64, SI5351_R_DIV_64)
                         else (Fclk, SI5351_R_DIV_1))
     in (apply_correction si5351Correction Fclk, rdiv))"

text \<open>
  \<open>si5351_Calc\<close> (lines 184 to 253) fills the two structs it is handed; a field it does
  not assign keeps the value it had.  The divisions by \<open>Fclk\<close> and by \<open>t\<close> have run-time
  divisors; those by \<open>Fxtal\<close> and by the \<open>t\<close> of the upper branch divide by constants.
\<close>

definition si5351_Calc ::
  "int32 \<Rightarrow> int32 \<Rightarrow> si5351PLLConfig_t \<Rightarrow> si5351OutputConfig_t
     \<Rightarrow> (si5351PLLConfig_t \<times> si5351OutputConfig_t) option" where
  "si5351_Calc si5351Correction Fclk0 pll_conf out_conf =
    (let (Fclk, rdiv) = Calc_Fclk si5351Correction Fclk0;
         out_conf = out_conf\<lparr>out_allowIntegerMode := True, out_rdiv := rdiv\<rparr>;
         Fxtal = 25000000
     in do {
       (a, b, c, x, y, z) \<leftarrow>
         (if Fclk <s 81000000 then do {
            let Fpll = 900000000;
            x \<leftarrow> c_div Fpll Fclk;
            let t = signed_drop_bit 20 Fclk + 1;
            r \<leftarrow> c_mod Fpll Fclk;
            y \<leftarrow> c_div r t;
            z \<leftarrow> c_div Fclk t;
            Some (36, 0, 1, x, y, z)
          } else do {
            let x = (if 150000000 \<le>s Fclk then 4 else if 100000000 \<le>s Fclk then 6 else 8);
            let numerator = x * Fclk;
            let t = signed_drop_bit 20 Fxtal + 1;
            Some (sdiv32 numerator Fxtal, sdiv32 (smod32 numerator Fxtal) t, sdiv32 Fxtal t,
                  x, 0, 1)
          });
       Some (pll_conf\<lparr>pll_mult := a, pll_num := b, pll_denom := c\<rparr>,
             out_conf\<lparr>out_div := x, out_num := y, out_denom := z\<rparr>)
     })"

text \<open>Lines 269 to 273 of \<open>si5351_CalcIQ\<close>: the clamp, then the correction.\<close>

definition CalcIQ_Fclk :: "int32 \<Rightarrow> int32 \<Rightarrow> int32" where
  "CalcIQ_Fclk si5351Correction Fclk0 =
    (let Fclk = (if Fclk0 <s 1400000 then 1400000
                 else if 100000000 <s Fclk0 then 100000000 else Fclk0)
     in apply_correction si5351Correction Fclk)"

text \<open>\<open>si5351_CalcIQ\<close> (lines 265 to 300).\<close>

definition si5351_CalcIQ ::
  "int32 \<Rightarrow> int32 \<Rightarrow> si5351PLLConfig_t \<Rightarrow> si5351OutputConfig_t
     \<Rightarrow> (si5351PLLConfig_t \<times> si5351OutputConfig_t) option" where
  "si5351_CalcIQ si5351Correction Fclk0 pll_conf out_conf =
    (let Fxtal = 25000000;
         Fclk = CalcIQ_Fclk si5351Correction Fclk0;
         out_conf = out_conf\<lparr>out_allowIntegerMode := False, out_rdiv := SI5351_R_DIV_1\<rparr>
     in do {
       dv \<leftarrow> (if Fclk <s 4900000 then Some 127
              else if Fclk <s 8000000 then c_div 625000000 Fclk
              else c_div 900000000 Fclk);
       let out_conf = out_conf\<lparr>out_div := dv, out_num := 0, out_denom := 1\<rparr>;
       let Fpll = Fclk * out_div out_conf;
       Some (pll_conf\<lparr>pll_mult := sdiv32 Fpll Fxtal,
                      pll_num := sdiv32 (smod32 Fpll Fxtal) 24,
                      pll_denom := sdiv32 Fxtal 24\<rparr>,
             out_conf)
     })"

section \<open>What the specification says, in its own words\<close>

text \<open>
  The frequencies a parameter set stands for, in exact rational arithmetic:
  the PLL runs at \<open>Fxtal \<times> (mult + num/denom)\<close> and the output at that divided by
  \<open>(div + y/z) \<times> 2^rDivExp\<close>, with \<open>Fxtal = 25 MHz\<close>.
\<close>

definition pll_frequency :: "si5351PLLConfig_t \<Rightarrow> rat" where
  "pll_frequency p =
     25000000 * (of_int (sint (pll_mult p)) + of_int (sint (pll_num p)) / of_int (sint (pll_denom p)))"

definition found_frequency :: "si5351PLLConfig_t \<Rightarrow> si5351OutputConfig_t \<Rightarrow> rat" where
  "found_frequency p out =
     pll_frequency p /
       ((of_int (sint (out_div out)) + of_int (sint (out_num out)) / of_int (sint (out_denom out)))
        * 2 ^ unat (out_rdiv out))"

text \<open>
  The correction formula over the integers, each division truncating:
  \<open>adjusted = raw - (raw / 1_000_000) * correction / 100\<close>.
\<close>

definition spec_adjusted :: "int \<Rightarrow> int \<Rightarrow> int" where
  "spec_adjusted raw correction = raw - ((raw sdiv 1000000) * correction) sdiv 100"

text \<open>
  The same formula with the product taken in \<open>int32_t\<close>: it wraps around to 32 bits before
  it is divided by 100.  Where the product fits \<open>int32_t\<close> the two formulas agree.
\<close>

definition adjusted_int32 :: "int \<Rightarrow> int \<Rightarrow> int" where
  "adjusted_int32 raw correction =
     raw - signed_take_bit 31 ((raw sdiv 1000000) * correction) sdiv 100"

text \<open>Bits \<open>hi:lo\<close> of a value, and the byte layout of a parameter block.\<close>

definition bits :: "nat \<Rightarrow> nat \<Rightarrow> nat \<Rightarrow> nat" where
  "bits hi lo v = take_bit (Suc hi - lo) (drop_bit lo v)"

definition spec_block :: "nat \<Rightarrow> nat \<Rightarrow> nat \<Rightarrow> nat \<Rightarrow> nat \<Rightarrow> nat list" where
  "spec_block P1 P2 P3 divideBy4Flag rDividerExponent =
     [bits 15 8 P3, bits 7 0 P3,
      bits 17 16 P1 OR push_bit 2 divideBy4Flag OR push_bit 4 rDividerExponent,
      bits 15 8 P1, bits 7 0 P1,
      push_bit 4 (bits 19 16 P3) OR bits 19 16 P2,
      bits 15 8 P2, bits 7 0 P2]"

text \<open>Writes of a list of byte values to consecutive register addresses.\<close>

fun writes_from :: "uint8 \<Rightarrow> nat list \<Rightarrow> bus" where
  "writes_from a [] = []"
| "writes_from a (v # vs) = (a, of_nat v) # writes_from (a + 1) vs"

section \<open>Register constants and bit masks\<close>

lemmas register_defs =
  SI5351_REGISTER_16_CLK0_CONTROL_def SI5351_REGISTER_17_CLK1_CONTROL_def
  SI5351_REGISTER_18_CLK2_CONTROL_def SI5351_REGISTER_22_CLK6_CONTROL_def
  SI5351_REGISTER_23_CLK7_CONTROL_def SI5351_REGISTER_42_MULTISYNTH0_PARAMETERS_1_def
  SI5351_REGISTER_50_MULTISYNTH1_PARAMETERS_1_def SI5351_REGISTER_58_MULTISYNTH2_PARAMETERS_1_def
  SI5351_REGISTER_165_CLK0_INITIAL_PHASE_OFFSET_def
  SI5351_REGISTER_166_CLK1_INITIAL_PHASE_OFFSET_def
  SI5351_REGISTER_167_CLK2_INITIAL_PHASE_OFFSET_def SI5351_REGISTER_177_PLL_RESET_def
  SI5351_R_DIV_1_def SI5351_R_DIV_64_def

lemma mask_numerals:
  "(0xFF::int32) = mask 8" "(0x3::int32) = mask 2" "(0x7::int32) = mask 3"
  "(0xF::int32) = mask 4" "(0xF0::int32) = push_bit 4 (mask 4)"
  by (simp_all add: mask_eq_exp_minus_1)

lemma channel_cases:
  fixes ch :: uint8
  assumes "\<not> 2 < ch"
  shows "ch = 0 \<or> ch = 1 \<or> ch = 2"
proof -
  have "unat ch \<le> 2" using assms by (simp add: word_less_nat_alt)
  then have "unat ch = 0 \<or> unat ch = 1 \<or> unat ch = 2" by arith
  then show ?thesis by (auto simp add: word_unat_eq_iff)
qed

section \<open>The byte layout of a parameter block\<close>

lemma byte_hi: "(ucast (signed_drop_bit 8 (P::int32) AND 0xFF) :: uint8) = of_nat (bits 15 8 (unat P))"
  unfolding mask_numerals
  by (rule bit_word_eqI) (auto simp add: bit_simps bits_def)

lemma byte_lo: "(ucast ((P::int32) AND 0xFF) :: uint8) = of_nat (bits 7 0 (unat P))"
  unfolding mask_numerals
  by (rule bit_word_eqI) (auto simp add: bit_simps bits_def)

lemma byte_top:
  "(ucast ((signed_drop_bit 12 (P3::int32) AND 0xF0) OR (signed_drop_bit 16 (P2::int32) AND 0xF)) :: uint8)
     = of_nat (push_bit 4 (bits 19 16 (unat P3)) OR bits 19 16 (unat P2))"
  unfolding mask_numerals
  by (rule bit_word_eqI) (auto simp add: bit_simps bits_def)

lemma byte_flags_masked:
  "(ucast ((signed_drop_bit 16 (P1::int32) AND 0x3)
           OR push_bit 2 ((ucast (d::uint8) :: int32) AND 0x3)
           OR push_bit 4 ((ucast (r::uint8) :: int32) AND 0x7)) :: uint8)
     = of_nat (bits 17 16 (unat P1) OR push_bit 2 (take_bit 2 (unat d))
               OR push_bit 4 (take_bit 3 (unat r)))"
  unfolding mask_numerals
  by (rule bit_word_eqI) (auto simp add: bit_simps bits_def)

lemma byte_flags:
  assumes "unat d < 4" and "unat r < 8"
  shows "(ucast ((signed_drop_bit 16 (P1::int32) AND 0x3)
                 OR push_bit 2 ((ucast (d::uint8) :: int32) AND 0x3)
                 OR push_bit 4 ((ucast (r::uint8) :: int32) AND 0x7)) :: uint8)
           = of_nat (bits 17 16 (unat P1) OR push_bit 2 (unat d) OR push_bit 4 (unat r))"
proof -
  have d: "take_bit 2 (unat d) = unat d" using assms(1) by (simp add: take_bit_nat_eq_self)
  have r: "take_bit 3 (unat r) = unat r" using assms(2) by (simp add: take_bit_nat_eq_self)
  show ?thesis by (simp only: byte_flags_masked d r)
qed

lemma bits_less: "bits hi lo v < 2 ^ (Suc hi - lo)"
  by (simp add: bits_def)

lemma or_nat_less:
  fixes a b :: nat
  assumes "a < 2 ^ n" and "b < 2 ^ n"
  shows "a OR b < 2 ^ n"
proof -
  have "take_bit n (a OR b) = a OR b"
    using assms by (simp add: take_bit_or take_bit_nat_eq_self)
  then show ?thesis by (simp only: take_bit_nat_eq_self_iff)
qed

lemma push_bit_nat_less: "(a::nat) < 2 ^ m \<Longrightarrow> push_bit k a < 2 ^ (m + k)"
  by (simp add: push_bit_eq_mult power_add)

lemma spec_block_bytes:
  assumes "d < 4" and "r < 8"
  shows "\<forall>v \<in> set (spec_block P1 P2 P3 d r). v < 256"
proof -
  have a: "bits 15 8 v < 256" "bits 7 0 v < 256" for v
    using bits_less [of 15 8 v] bits_less [of 7 0 v] by simp_all
  have b: "bits 17 16 v < 2 ^ 8" for v using bits_less [of 17 16 v] by simp
  have c: "bits 19 16 v < 2 ^ 4" for v using bits_less [of 19 16 v] by simp
  have d: "push_bit 2 d < 2 ^ 8" using push_bit_nat_less [of d 2 2] assms(1) by simp
  have e: "push_bit 4 r < 2 ^ 8" using push_bit_nat_less [of r 3 4] assms(2) by simp
  have f: "push_bit 4 (bits 19 16 v) < 2 ^ 8" for v using push_bit_nat_less [OF c, of 4 v] by simp
  have g: "bits 19 16 v < 2 ^ 8" for v using c [of v] by simp
  have 2: "bits 17 16 P1 OR push_bit 2 d OR push_bit 4 r < 256"
    using or_nat_less [OF b or_nat_less [OF d e], of P1] by simp
  have 5: "push_bit 4 (bits 19 16 P3) OR bits 19 16 P2 < 256"
    using or_nat_less [OF f g, of P3 P2] by simp
  show ?thesis using a 2 5 by (simp add: spec_block_def)
qed

lemma writeBulk_spec_block:
  assumes "unat divBy4 < 4" and "unat rdiv < 8"
  shows "si5351_writeBulk baseaddr P1 P2 P3 divBy4 rdiv s =
           s @ writes_from baseaddr
                 (spec_block (unat P1) (unat P2) (unat P3) (unat divBy4) (unat rdiv))"
  unfolding si5351_writeBulk_def si5351_write_def spec_block_def Let_def
  apply (simp only: byte_hi)
  apply (simp only: byte_lo byte_flags [OF assms] byte_top)
  apply (simp add: add.assoc)
  done

text \<open>
  C2.  For \<open>P1\<close> in 18 bits, \<open>P2\<close> and \<open>P3\<close> in 20 bits, \<open>divBy4\<close> in 2 bits and
  \<open>rdiv\<close> in 3 bits, \<open>si5351_writeBulk\<close> appends exactly eight writes to the bus, to the
  consecutive addresses \<open>baseaddr\<close> to \<open>baseaddr + 7\<close> (in \<open>uint8_t\<close> arithmetic), whose
  data are the bytes of the layout of the specification, in its order; each of those values
  is a byte, so nothing is lost when it is sent.
\<close>

theorem writeBulk_layout:
  assumes "unat P1 < 2 ^ 18" and "unat P2 < 2 ^ 20" and "unat P3 < 2 ^ 20"
    and "unat divBy4 < 4" and "unat rdiv < 8"
  shows "si5351_writeBulk baseaddr P1 P2 P3 divBy4 rdiv s =
           s @ [(baseaddr, of_nat (bits 15 8 (unat P3))),
                (baseaddr + 1, of_nat (bits 7 0 (unat P3))),
                (baseaddr + 2, of_nat (bits 17 16 (unat P1) OR push_bit 2 (unat divBy4)
                                       OR push_bit 4 (unat rdiv))),
                (baseaddr + 3, of_nat (bits 15 8 (unat P1))),
                (baseaddr + 4, of_nat (bits 7 0 (unat P1))),
                (baseaddr + 5, of_nat (push_bit 4 (bits 19 16 (unat P3)) OR bits 19 16 (unat P2))),
                (baseaddr + 6, of_nat (bits 15 8 (unat P2))),
                (baseaddr + 7, of_nat (bits 7 0 (unat P2)))]
         \<and> (\<forall>v \<in> set (spec_block (unat P1) (unat P2) (unat P3) (unat divBy4) (unat rdiv)).
               v < 256)"
proof
  show "si5351_writeBulk baseaddr P1 P2 P3 divBy4 rdiv s =
           s @ [(baseaddr, of_nat (bits 15 8 (unat P3))),
                (baseaddr + 1, of_nat (bits 7 0 (unat P3))),
                (baseaddr + 2, of_nat (bits 17 16 (unat P1) OR push_bit 2 (unat divBy4)
                                       OR push_bit 4 (unat rdiv))),
                (baseaddr + 3, of_nat (bits 15 8 (unat P1))),
                (baseaddr + 4, of_nat (bits 7 0 (unat P1))),
                (baseaddr + 5, of_nat (push_bit 4 (bits 19 16 (unat P3)) OR bits 19 16 (unat P2))),
                (baseaddr + 6, of_nat (bits 15 8 (unat P2))),
                (baseaddr + 7, of_nat (bits 7 0 (unat P2)))]"
    unfolding writeBulk_spec_block [OF assms(4,5)] spec_block_def
    by (simp add: add.assoc)
  show "\<forall>v \<in> set (spec_block (unat P1) (unat P2) (unat P3) (unat divBy4) (unat rdiv)). v < 256"
    by (rule spec_block_bytes [OF assms(4,5)])
qed

theorem writeBulk_layout_witness:
  "unat (0x2ABCD :: int32) < 2 ^ 18 \<and> unat (0x12345 :: int32) < 2 ^ 20
   \<and> unat (0xFEDCB :: int32) < 2 ^ 20 \<and> unat (3 :: uint8) < 4 \<and> unat (6 :: uint8) < 8
   \<and> si5351_writeBulk 42 0x2ABCD 0x12345 0xFEDCB 3 6 [] =
       [(42, 0xED), (43, 0xCB), (44, 0x6E), (45, 0xAB), (46, 0xCD), (47, 0xF1), (48, 0x23),
        (49, 0x45)]"
proof -
  have h: "unat (0x2ABCD :: int32) < 2 ^ 18" "unat (0x12345 :: int32) < 2 ^ 20"
    "unat (0xFEDCB :: int32) < 2 ^ 20" "unat (3 :: uint8) < 4" "unat (6 :: uint8) < 8"
    by simp_all
  show ?thesis
    using h writeBulk_layout [OF h, of 42 "[]"]
    by (simp add: bits_def)
qed

section \<open>Validation in \<open>si5351_SetupOutput\<close>\<close>

text \<open>
  C3, as the code has it.  The status of \<open>si5351_SetupOutput\<close> is 1 exactly when
  \<open>output > 2\<close>; it is 2 exactly when \<open>output \<le> 2\<close>, integer mode is not allowed and the
  divider is below 8 or is 8 with a zero numerator (the divide-by-4 case \<open>div = 4\<close> is not
  exempt); otherwise it is 0, unless the division by \<open>denom\<close> faults and nothing is
  returned: that is when \<open>div \<noteq> 4\<close> and either \<open>denom = 0\<close>, or \<open>denom = -1\<close> and
  \<open>128 * num\<close> is \<open>INT32_MIN\<close>.
\<close>

theorem SetupOutput_status:
  "map_option fst (si5351_SetupOutput output pllSource driveStrength conf phaseOffset s) =
     (if 2 < output then Some 1
      else if \<not> out_allowIntegerMode conf
              \<and> (out_div conf <s 8 \<or> (out_div conf = 8 \<and> out_num conf = 0))
      then Some 2
      else if out_div conf \<noteq> 4
              \<and> (out_denom conf = 0
                  \<or> (128 * out_num conf = 0x80000000 \<and> out_denom conf = - 1))
      then None
      else Some 0)"
  by (simp add: si5351_SetupOutput_def Let_def c_div_def c_mod_def split: prod.splits)

theorem SetupOutput_status_witness:
  "map_option fst (si5351_SetupOutput 2 SI5351_PLL_B 1
      \<lparr>out_allowIntegerMode = True, out_inverted = 0, out_div = 90, out_num = 0,
       out_denom = 1000000, out_rdiv = 0\<rparr> 0 []) = Some 0
   \<and> map_option fst (si5351_SetupOutput 3 SI5351_PLL_B 1
      \<lparr>out_allowIntegerMode = True, out_inverted = 0, out_div = 90, out_num = 0,
       out_denom = 1000000, out_rdiv = 0\<rparr> 0 []) = Some 1
   \<and> map_option fst (si5351_SetupOutput 0 SI5351_PLL_A 1
      \<lparr>out_allowIntegerMode = False, out_inverted = 0, out_div = 6, out_num = 0,
       out_denom = 1, out_rdiv = 0\<rparr> 0 []) = Some 2
   \<and> map_option fst (si5351_SetupOutput 0 SI5351_PLL_A 1
      \<lparr>out_allowIntegerMode = True, out_inverted = 0, out_div = 90, out_num = 0,
       out_denom = 0, out_rdiv = 0\<rparr> 0 []) = None
   \<and> map_option fst (si5351_SetupOutput 0 SI5351_PLL_A 1
      \<lparr>out_allowIntegerMode = True, out_inverted = 0, out_div = 90, out_num = - 16777216,
       out_denom = - 1, out_rdiv = 0\<rparr> 0 []) = None
   \<and> map_option fst (si5351_SetupOutput 0 SI5351_PLL_A 1
      \<lparr>out_allowIntegerMode = True, out_inverted = 0, out_div = 90, out_num = 5,
       out_denom = - 1, out_rdiv = 0\<rparr> 0 []) = Some 0"
  by (simp add: SetupOutput_status word_sless_alt)

text \<open>
  The claim as stated fails: with integer mode not allowed, the divide-by-4 case
  \<open>div = 4, num = 0\<close> is rejected with status 2 although the claim exempts it, and
  \<open>div = 8, num = 0\<close> is rejected with status 2 although 8 is not below 8.
\<close>

theorem SetupOutput_status_counterexample:
  "si5351_SetupOutput 0 SI5351_PLL_A 0
      \<lparr>out_allowIntegerMode = False, out_inverted = 0, out_div = 4, out_num = 0,
       out_denom = 1, out_rdiv = 0\<rparr> 0 [] = Some (2, [])
   \<and> si5351_SetupOutput 0 SI5351_PLL_A 0
      \<lparr>out_allowIntegerMode = False, out_inverted = 0, out_div = 8, out_num = 0,
       out_denom = 1, out_rdiv = 0\<rparr> 0 [] = Some (2, [])"
  by (simp add: si5351_SetupOutput_def)

text \<open>
  C10.  When \<open>si5351_SetupOutput\<close> returns a nonzero status the bus is as it was: no
  register has been written.
\<close>

theorem SetupOutput_error_no_write:
  assumes "si5351_SetupOutput output pllSource driveStrength conf phaseOffset s = Some (rc, s')"
    and "rc \<noteq> 0"
  shows "s' = s"
  using assms
  by (auto simp add: si5351_SetupOutput_def Let_def c_div_def c_mod_def
      split: prod.splits if_splits)

theorem SetupOutput_error_no_write_witness:
  "si5351_SetupOutput 7 SI5351_PLL_A 0
      \<lparr>out_allowIntegerMode = True, out_inverted = 0, out_div = 90, out_num = 0,
       out_denom = 1000000, out_rdiv = 0\<rparr> 0 [(3, 0xFF)] = Some (1, [(3, 0xFF)])
   \<and> (1::int) \<noteq> 0
   \<and> si5351_SetupOutput 0 SI5351_PLL_A 0
      \<lparr>out_allowIntegerMode = False, out_inverted = 0, out_div = 6, out_num = 0,
       out_denom = 1, out_rdiv = 0\<rparr> 0 [(3, 0xFF)] = Some (2, [(3, 0xFF)])
   \<and> (2::int) \<noteq> 0"
proof -
  let ?c1 = "\<lparr>out_allowIntegerMode = True, out_inverted = 0, out_div = 90, out_num = 0,
       out_denom = 1000000, out_rdiv = 0\<rparr>"
  let ?c2 = "\<lparr>out_allowIntegerMode = False, out_inverted = 0, out_div = 6, out_num = 0,
       out_denom = 1, out_rdiv = 0\<rparr>"
  obtain s1 where a: "si5351_SetupOutput 7 SI5351_PLL_A 0 ?c1 0 [(3, 0xFF)] = Some (1, s1)"
    by (simp add: si5351_SetupOutput_def)
  obtain s2 where b: "si5351_SetupOutput 0 SI5351_PLL_A 0 ?c2 0 [(3, 0xFF)] = Some (2, s2)"
    by (simp add: si5351_SetupOutput_def word_sless_alt)
  have "s1 = [(3, 0xFF)]" by (rule SetupOutput_error_no_write [OF a]) simp
  moreover have "s2 = [(3, 0xFF)]" by (rule SetupOutput_error_no_write [OF b]) simp
  ultimately show ?thesis using a b by simp
qed

section \<open>The divide-by-4 block\<close>

lemma writeBulk_div4:
  "si5351_writeBulk b 0 0 1 3 r s =
     s @ [(b, 0), (b + 1, 1), (b + 2, 0x0C OR push_bit 4 (r AND 7)), (b + 3, 0), (b + 4, 0),
          (b + 5, 0), (b + 6, 0), (b + 7, 0)]"
  apply (simp add: si5351_writeBulk_def si5351_write_def Let_def)
  apply (rule bit_word_eqI)
  apply (auto simp add: bit_simps)
  done

lemma writeBulk_no_flag:
  "snd (si5351_writeBulk b P1 P2 P3 0 r s ! (length s + 2)) AND 0x0C = 0"
proof -
  have m: "(12::uint8) = push_bit 2 (mask 2)" "(112::int32) = push_bit 4 (mask 3)"
    by (simp_all add: mask_eq_exp_minus_1)
  show ?thesis
    apply (simp add: si5351_writeBulk_def si5351_write_def Let_def nth_append)
    unfolding mask_numerals m
    apply (rule bit_word_eqI)
    apply (auto simp add: bit_simps)
    done
qed

text \<open>
  C5, as the code has it.  A call of \<open>si5351_SetupOutput\<close> with \<open>div = 4\<close> that passes
  validation (channel at most 2, integer mode allowed) writes the control byte, then the
  block of \<open>P1 = 0\<close>, \<open>P2 = 0\<close>, \<open>P3 = 1\<close> with the divide-by-4 flag \<open>0b11\<close>, then the
  phase offset, whatever \<open>num\<close> and \<open>denom\<close> are (a zero \<open>denom\<close> included, as no division
  is done); a call with \<open>div = 4\<close> that fails validation returns its status and encodes no
  block.  The bytes of the block are 0, 1, \<open>0x0C | rdiv << 4\<close>, 0, 0, 0, 0, 0.
  \<open>si5351_SetupPLL\<close> has no such case: unless a division by \<open>denom\<close> faults, it encodes
  \<open>P1\<close>, \<open>P2\<close>, \<open>P3\<close> by the general formula and passes the flag 0, so bits 3:2 of the
  third byte of a PLL block are clear.
\<close>

theorem SetupOutput_div4:
  assumes "out_div conf = 4"
  shows "si5351_SetupOutput ch pllSource driveStrength conf phaseOffset s =
      (if 2 < ch then Some (1, s)
       else if \<not> out_allowIntegerMode conf then Some (2, s)
       else Some (0,
         si5351_write (165 + ch) (phaseOffset AND 0x7F)
           (si5351_writeBulk (42 + 8 * ch) 0 0 1 3 (out_rdiv conf)
             (si5351_write (16 + ch)
                (0x0C OR driveStrength OR push_bit 4 (out_inverted conf AND 1)
                   OR (if pllSource = SI5351_PLL_B then 0x20 else 0) OR 0x40) s))))
    \<and> si5351_writeBulk b 0 0 1 3 r s' =
        s' @ [(b, 0), (b + 1, 1), (b + 2, 0x0C OR push_bit 4 (r AND 7)), (b + 3, 0), (b + 4, 0),
              (b + 5, 0), (b + 6, 0), (b + 7, 0)]
    \<and> si5351_SetupPLL pll pconf s =
        (if pll_denom pconf = 0
            \<or> (128 * pll_num pconf = 0x80000000 \<and> pll_denom pconf = - 1)
         then None
         else Some (si5351_write 177 0xA0
            (si5351_writeBulk (if pll = SI5351_PLL_A then 26 else 34)
               (128 * pll_mult pconf + sdiv32 (128 * pll_num pconf) (pll_denom pconf) - 512)
               (smod32 (128 * pll_num pconf) (pll_denom pconf)) (pll_denom pconf) 0 0
               (if pll_allowIntegerMode pconf \<and> pll_num pconf = 0 \<and> smod32 (pll_mult pconf) 2 = 0
                then si5351_write (if pll = SI5351_PLL_A then 22 else 23) 0xC0 s else s))))
    \<and> snd (si5351_writeBulk b P1 P2 P3 0 r s' ! (length s' + 2)) AND 0x0C = 0"
proof (intro conjI)
  show "si5351_SetupOutput ch pllSource driveStrength conf phaseOffset s =
      (if 2 < ch then Some (1, s)
       else if \<not> out_allowIntegerMode conf then Some (2, s)
       else Some (0,
         si5351_write (165 + ch) (phaseOffset AND 0x7F)
           (si5351_writeBulk (42 + 8 * ch) 0 0 1 3 (out_rdiv conf)
             (si5351_write (16 + ch)
                (0x0C OR driveStrength OR push_bit 4 (out_inverted conf AND 1)
                   OR (if pllSource = SI5351_PLL_B then 0x20 else 0) OR 0x40) s))))"
  proof (cases "2 < ch")
    case True
    then show ?thesis by (simp add: si5351_SetupOutput_def)
  next
    case False
    from channel_cases [OF this] show ?thesis
      using assms
      by (auto simp add: si5351_SetupOutput_def Let_def register_defs word_sless_alt ac_simps)
  qed
  show "si5351_writeBulk b 0 0 1 3 r s' =
        s' @ [(b, 0), (b + 1, 1), (b + 2, 0x0C OR push_bit 4 (r AND 7)), (b + 3, 0), (b + 4, 0),
              (b + 5, 0), (b + 6, 0), (b + 7, 0)]"
    by (rule writeBulk_div4)
  show "si5351_SetupPLL pll pconf s =
        (if pll_denom pconf = 0
            \<or> (128 * pll_num pconf = 0x80000000 \<and> pll_denom pconf = - 1)
         then None
         else Some (si5351_write 177 0xA0
            (si5351_writeBulk (if pll = SI5351_PLL_A then 26 else 34)
               (128 * pll_mult pconf + sdiv32 (128 * pll_num pconf) (pll_denom pconf) - 512)
               (smod32 (128 * pll_num pconf) (pll_denom pconf)) (pll_denom pconf) 0 0
               (if pll_allowIntegerMode pconf \<and> pll_num pconf = 0 \<and> smod32 (pll_mult pconf) 2 = 0
                then si5351_write (if pll = SI5351_PLL_A then 22 else 23) 0xC0 s else s))))"
    by (simp add: si5351_SetupPLL_def Let_def c_div_def c_mod_def register_defs)
  show "snd (si5351_writeBulk b P1 P2 P3 0 r s' ! (length s' + 2)) AND 0x0C = 0"
    by (rule writeBulk_no_flag)
qed

theorem SetupOutput_div4_witness:
  "out_div \<lparr>out_allowIntegerMode = True, out_inverted = 0, out_div = 4, out_num = 7,
       out_denom = 0, out_rdiv = 0\<rparr> = 4
   \<and> si5351_SetupOutput 0 SI5351_PLL_A 1
        \<lparr>out_allowIntegerMode = True, out_inverted = 0, out_div = 4, out_num = 7,
         out_denom = 0, out_rdiv = 0\<rparr> 0 [] =
       Some (0, [(16, 0x4D), (42, 0), (43, 1), (44, 0x0C), (45, 0), (46, 0), (47, 0), (48, 0),
                 (49, 0), (165, 0)])
   \<and> si5351_SetupPLL SI5351_PLL_A
        \<lparr>pll_allowIntegerMode = False, pll_mult = 4, pll_num = 0, pll_denom = 1\<rparr> [] =
       Some [(26, 0), (27, 1), (28, 0), (29, 0), (30, 0), (31, 0), (32, 0), (33, 0), (177, 0xA0)]"
proof -
  let ?c = "\<lparr>out_allowIntegerMode = True, out_inverted = 0, out_div = 4, out_num = 7,
       out_denom = 0, out_rdiv = 0\<rparr>"
  let ?p = "\<lparr>pll_allowIntegerMode = False, pll_mult = 4, pll_num = 0, pll_denom = 1\<rparr>"
  have h: "out_div ?c = 4" by simp
  show ?thesis
    using SetupOutput_div4 [OF h, where ch = 0 and pllSource = SI5351_PLL_A
        and driveStrength = 1 and phaseOffset = 0 and s = "[]" and pconf = ?p
        and pll = SI5351_PLL_A]
    by (simp add: si5351_write_def si5351_writeBulk_def sdiv32_def smod32_def)
qed

text \<open>
  The claim for every call with \<open>div = 4\<close> fails: with integer mode not allowed the call
  returns status 2, and on a channel above 2 it returns status 1; either way no block is
  encoded and the bus is as it was.
\<close>

theorem SetupOutput_div4_counterexample:
  "si5351_SetupOutput 1 SI5351_PLL_B 3
      \<lparr>out_allowIntegerMode = False, out_inverted = 0, out_div = 4, out_num = 0,
       out_denom = 1, out_rdiv = 0\<rparr> 0 [(3, 0xFF)] = Some (2, [(3, 0xFF)])
   \<and> si5351_SetupOutput 3 SI5351_PLL_B 3
      \<lparr>out_allowIntegerMode = True, out_inverted = 0, out_div = 4, out_num = 0,
       out_denom = 1, out_rdiv = 0\<rparr> 0 [(3, 0xFF)] = Some (1, [(3, 0xFF)])"
  by (simp add: si5351_SetupOutput_def word_sless_alt)

section \<open>Reading \<open>int32_t\<close> arithmetic as integer arithmetic\<close>

lemma sint_word_of_int_32:
  "- 2147483648 \<le> k \<Longrightarrow> k < 2147483648 \<Longrightarrow> sint (word_of_int k :: int32) = k"
  by (simp add: sint_sbintrunc' signed_take_bit_int_eq_self)

lemma sint_mult_32:
  "- 2147483648 \<le> sint a * sint b \<Longrightarrow> sint a * sint b < 2147483648
     \<Longrightarrow> sint (a * b :: int32) = sint a * sint b"
  by (simp add: sint_word_mult signed_take_bit_int_eq_self)

lemma sint_diff_32:
  "- 2147483648 \<le> sint a - sint b \<Longrightarrow> sint a - sint b < 2147483648
     \<Longrightarrow> sint (a - b :: int32) = sint a - sint b"
  by (simp add: sint_word_diff signed_take_bit_int_eq_self)

lemma sint_add_32:
  "- 2147483648 \<le> sint a + sint b \<Longrightarrow> sint a + sint b < 2147483648
     \<Longrightarrow> sint (a + b :: int32) = sint a + sint b"
  by (simp add: sint_word_add signed_take_bit_int_eq_self)

lemma sint_range_32: "- 2147483648 \<le> sint (a :: int32)" "sint (a :: int32) < 2147483648"
  using sint_ge [of a] sint_lt [of a] by simp_all

lemma sdiv_nonneg: "0 \<le> k \<Longrightarrow> 0 < l \<Longrightarrow> k sdiv l = k div (l::int)"
  by (cases "k = 0") (simp_all add: signed_divide_int_def)

lemma smod_nonneg: "0 \<le> k \<Longrightarrow> 0 < l \<Longrightarrow> k smod l = k mod (l::int)"
  by (cases "k = 0") (simp_all add: signed_modulo_int_def)

lemma sint_sdiv32_pos:
  assumes "0 \<le> sint a" and "0 < sint b"
  shows "sint (sdiv32 a b) = sint a div sint b"
proof -
  have "sint a div sint b \<le> sint a div 1"
    using assms by (intro zdiv_mono2) simp_all
  then have "sint a div sint b < 2147483648" using sint_range_32 [of a] by simp
  moreover have "- 2147483648 \<le> sint a div sint b"
    using assms pos_imp_zdiv_nonneg_iff [of "sint b" "sint a"] by simp
  ultimately have "sint (word_of_int (sint a div sint b) :: int32) = sint a div sint b"
    by (rule sint_word_of_int_32 [rotated])
  then show ?thesis using assms by (simp add: sdiv32_def sdiv_nonneg)
qed

lemma sint_smod32_pos:
  assumes "0 \<le> sint a" and "0 < sint b"
  shows "sint (smod32 a b) = sint a mod sint b"
proof -
  have "sint a mod sint b < sint b" using assms by simp
  then have "sint a mod sint b < 2147483648" using sint_range_32 [of b] by linarith
  moreover have "0 \<le> sint a mod sint b" using assms by simp
  then have "- 2147483648 \<le> sint a mod sint b" by linarith
  ultimately have "sint (word_of_int (sint a mod sint b) :: int32) = sint a mod sint b"
    by (rule sint_word_of_int_32 [rotated])
  then show ?thesis using assms by (simp add: smod32_def smod_nonneg)
qed

lemma sint_sdiv32_100: "sint (sdiv32 a 100) = sint a sdiv 100"
proof -
  have "- 2147483648 \<le> sint a sdiv 100 \<and> sint a sdiv 100 < 2147483648"
    using sint_range_32 [of a]
    by (cases "sint a < 0"; cases "sint a = 0") (simp_all add: signed_divide_int_def, arith+)
  then show ?thesis by (simp add: sdiv32_def sint_word_of_int_32)
qed

lemma sint_shift20: "sint (signed_drop_bit 20 (a::int32)) = sint a div 1048576"
  by (simp add: sint_signed_drop_bit_eq drop_bit_eq_div)

lemma apply_correction_0: "apply_correction 0 F = F"
  by (simp add: apply_correction_def sdiv32_def)

section \<open>The correction stage\<close>

lemma sdiv_100_bounds:
  fixes k :: int
  assumes "- 2147483648 \<le> k" and "k < 2147483648"
  shows "- 21474836 \<le> k sdiv 100" and "k sdiv 100 \<le> 21474836"
  using assms
  by (cases "k < 0"; cases "k = 0"; simp add: signed_divide_int_def; arith)+

lemma Calc_Fclk_stages:
  fixes F c :: int32
  defines "k \<equiv> max 8000 (min 160000000 (sint F))"
  shows "\<exists>S. Calc_Fclk c F =
             (apply_correction c S, if k < 1000000 then SI5351_R_DIV_64 else SI5351_R_DIV_1)
           \<and> sint S = (if k < 1000000 then 64 * k else k)"
proof -
  let ?C = "if F <s 8000 then 8000 else if 160000000 <s F then 160000000 else F"
  have C: "sint ?C = k" by (simp add: k_def word_sless_alt)
  have k: "8000 \<le> k" "k \<le> 160000000" by (simp_all add: k_def)
  show ?thesis
  proof (cases "k < 1000000")
    case True
    have "sint (?C * 64) = sint ?C * sint (64 :: int32)"
      using True k unfolding C [symmetric] by (intro sint_mult_32) simp_all
    then have "sint (?C * 64) = 64 * k" using C by simp
    moreover have "?C <s 1000000" using True C by (simp only: word_sless_alt) simp
    ultimately show ?thesis using True
      by (intro exI [of _ "?C * 64"]) (simp add: Calc_Fclk_def Let_def)
  next
    case False
    moreover have "\<not> ?C <s 1000000" using False C by (simp only: word_sless_alt) simp
    ultimately show ?thesis using C
      by (intro exI [of _ "?C"]) (simp add: Calc_Fclk_def Let_def)
  qed
qed

lemma CalcIQ_Fclk_stages:
  fixes F c :: int32
  shows "\<exists>S. CalcIQ_Fclk c F = apply_correction c S
           \<and> sint S = max 1400000 (min 100000000 (sint F))"
  by (intro exI [of _ "if F <s 1400000 then 1400000 else if 100000000 <s F then 100000000 else F"])
     (simp add: CalcIQ_Fclk_def Let_def word_sless_alt)

lemma apply_correction_exact:
  assumes S: "0 \<le> sint S" "sint S \<le> 160000000"
    and lo: "- 2147483648 \<le> (sint S div 1000000) * sint c"
    and up: "(sint S div 1000000) * sint c < 2147483648"
  shows "sint (apply_correction c S) = spec_adjusted (sint S) (sint c)"
proof -
  let ?q = "sdiv32 S 1000000"
  have q: "sint ?q = sint S div 1000000"
    using S sint_sdiv32_pos [of S 1000000] by simp
  have prod: "sint (?q * c) = sint ?q * sint c"
    using lo up unfolding q [symmetric] by (intro sint_mult_32) simp_all
  let ?x = "sdiv32 (?q * c) 100"
  have x: "sint ?x = (sint ?q * sint c) sdiv 100"
    by (simp add: sint_sdiv32_100 prod)
  have xb: "- 21474836 \<le> sint ?x" "sint ?x \<le> 21474836"
    unfolding x using sdiv_100_bounds [of "sint ?q * sint c"] lo up unfolding q by simp_all
  have "sint (S - ?x) = sint S - sint ?x"
    using S xb by (intro sint_diff_32) simp_all
  moreover have "sint S sdiv 1000000 = sint S div 1000000"
    using S by (simp add: sdiv_nonneg)
  ultimately show ?thesis
    by (simp add: apply_correction_def spec_adjusted_def x q)
qed

lemma Calc_rdiv:
  "si5351_Calc c F p out = Some (p', out') \<Longrightarrow> out_rdiv out' = snd (Calc_Fclk c F)"
  by (auto simp add: si5351_Calc_def Let_def split: prod.splits if_splits Option.bind_splits)

section \<open>The planners at the level of integers\<close>

lemma Calc_low:
  assumes G: "Calc_Fclk c F = (G, rd)" and pos: "0 < sint G" and lt: "sint G < 81000000"
  shows "\<exists>X Y Z. si5351_Calc c F p out =
            Some (p\<lparr>pll_mult := 36, pll_num := 0, pll_denom := 1\<rparr>,
                  out\<lparr>out_allowIntegerMode := True, out_rdiv := rd, out_div := X,
                      out_num := Y, out_denom := Z\<rparr>)
          \<and> sint X = 900000000 div sint G
          \<and> sint Y = (900000000 mod sint G) div (sint G div 1048576 + 1)
          \<and> sint Z = sint G div (sint G div 1048576 + 1)"
proof -
  let ?g = "sint G"
  let ?t = "signed_drop_bit 20 G + 1"
  have G0: "G \<noteq> 0" using pos by auto
  have sh: "sint (signed_drop_bit 20 G) = ?g div 1048576" by (rule sint_shift20)
  have shb: "0 \<le> ?g div 1048576" "?g div 1048576 \<le> 77" using pos lt by arith+
  have t: "sint ?t = ?g div 1048576 + 1"
    using shb sint_add_32 [of "signed_drop_bit 20 G" 1] by (simp add: sh)
  have tpos: "0 < sint ?t" using shb t by simp
  have t0: "?t \<noteq> 0" using tpos by auto
  have t1: "?t \<noteq> - 1"
  proof
    assume "?t = - 1"
    then have "sint ?t = - 1" by (simp only: sint_n1)
    then show False using tpos by simp
  qed
  have X: "sint (sdiv32 900000000 G) = 900000000 div ?g"
    using pos sint_sdiv32_pos [of 900000000 G] by simp
  have R: "sint (smod32 900000000 G) = 900000000 mod ?g"
    using pos sint_smod32_pos [of 900000000 G] by simp
  have R0: "0 \<le> sint (smod32 900000000 G)" using pos unfolding R by simp
  have Y: "sint (sdiv32 (smod32 900000000 G) ?t) = (900000000 mod ?g) div (?g div 1048576 + 1)"
    using sint_sdiv32_pos [OF R0 tpos] by (simp only: R t)
  have Z: "sint (sdiv32 G ?t) = ?g div (?g div 1048576 + 1)"
    using sint_sdiv32_pos [of G ?t] pos tpos by (simp only: t)
  have "G <s 81000000" using lt by (simp add: word_sless_alt)
  then have "si5351_Calc c F p out =
            Some (p\<lparr>pll_mult := 36, pll_num := 0, pll_denom := 1\<rparr>,
                  out\<lparr>out_allowIntegerMode := True, out_rdiv := rd,
                      out_div := sdiv32 900000000 G,
                      out_num := sdiv32 (smod32 900000000 G) ?t, out_denom := sdiv32 G ?t\<rparr>)"
    using G G0 t0 t1 by (simp add: si5351_Calc_def Let_def c_div_def c_mod_def)
  then show ?thesis using X Y Z by blast
qed

lemma Calc_high:
  assumes G: "Calc_Fclk c F = (G, rd)" and ge: "81000000 \<le> sint G" and le: "sint G \<le> 160000000"
  shows "\<exists>A B x. si5351_Calc c F p out =
            Some (p\<lparr>pll_mult := A, pll_num := B, pll_denom := 1041666\<rparr>,
                  out\<lparr>out_allowIntegerMode := True, out_rdiv := rd, out_div := word_of_int x,
                      out_num := 0, out_denom := 1\<rparr>)
          \<and> x = (if 150000000 \<le> sint G then 4 else if 100000000 \<le> sint G then 6 else 8)
          \<and> sint A = (x * sint G) div 25000000
          \<and> sint B = ((x * sint G) mod 25000000) div 24"
proof -
  let ?g = "sint G"
  let ?x = "if 150000000 \<le>s G then 4 else if 100000000 \<le>s G then 6 else (8::int32)"
  let ?xi = "if 150000000 \<le> ?g then 4 else if 100000000 \<le> ?g then 6 else (8::int)"
  let ?n = "?x * G"
  have x: "sint ?x = ?xi" "?x = word_of_int ?xi" by (simp_all add: word_sle_eq)
  have nb: "0 \<le> ?xi * ?g" "?xi * ?g < 900000000" using ge le by (simp_all split: if_splits)
  have n: "sint ?n = ?xi * ?g"
    using nb sint_mult_32 [of ?x G] unfolding x(1) by simp
  have A: "sint (sdiv32 ?n 25000000) = (?xi * ?g) div 25000000"
    using sint_sdiv32_pos [of ?n 25000000] nb unfolding n by simp
  have R: "sint (smod32 ?n 25000000) = (?xi * ?g) mod 25000000"
    using sint_smod32_pos [of ?n 25000000] nb unfolding n by simp
  have R0: "0 \<le> sint (smod32 ?n 25000000)" unfolding R by simp
  have B: "sint (sdiv32 (smod32 ?n 25000000) 24) = ((?xi * ?g) mod 25000000) div 24"
    using sint_sdiv32_pos [OF R0, of 24] unfolding R by simp
  have t: "signed_drop_bit 20 (25000000 :: int32) + 1 = 24" by simp
  have c: "sdiv32 25000000 24 = 1041666" by (simp add: sdiv32_def signed_divide_int_def)
  have "\<not> G <s 81000000" using ge by (simp add: word_sless_alt)
  then have "si5351_Calc c F p out =
            Some (p\<lparr>pll_mult := sdiv32 ?n 25000000, pll_num := sdiv32 (smod32 ?n 25000000) 24,
                    pll_denom := 1041666\<rparr>,
                  out\<lparr>out_allowIntegerMode := True, out_rdiv := rd, out_div := word_of_int ?xi,
                      out_num := 0, out_denom := 1\<rparr>)"
    using G by (simp add: si5351_Calc_def Let_def t c x(2) [symmetric])
  then show ?thesis using A B by blast
qed

lemma CalcIQ_int:
  assumes G: "CalcIQ_Fclk c F = G" and ge: "1400000 \<le> sint G" and le: "sint G \<le> 100000000"
  shows "\<exists>A B D d. si5351_CalcIQ c F p out =
            Some (p\<lparr>pll_mult := A, pll_num := B, pll_denom := 1041666\<rparr>,
                  out\<lparr>out_allowIntegerMode := False, out_rdiv := SI5351_R_DIV_1, out_div := D,
                      out_num := 0, out_denom := 1\<rparr>)
          \<and> sint D = d
          \<and> d = (if sint G < 4900000 then 127 else if sint G < 8000000 then 625000000 div sint G
                  else 900000000 div sint G)
          \<and> sint A = (sint G * d) div 25000000
          \<and> sint B = ((sint G * d) mod 25000000) div 24"
proof -
  let ?g = "sint G"
  let ?D = "if G <s 4900000 then 127 else if G <s 8000000 then sdiv32 625000000 G
            else sdiv32 900000000 G"
  let ?d = "if ?g < 4900000 then 127 else if ?g < 8000000 then 625000000 div ?g
            else 900000000 div ?g"
  have pos: "0 < ?g" using ge by simp
  have G0: "G \<noteq> 0" using pos by auto
  have D: "sint ?D = ?d"
    using pos sint_sdiv32_pos [of 625000000 G] sint_sdiv32_pos [of 900000000 G]
    by (simp add: word_sless_alt)
  have m1: "?g * (625000000 div ?g) \<le> 625000000" "?g * (900000000 div ?g) \<le> 900000000"
    using pos mult_div_mod_eq [of ?g 625000000] pos_mod_sign [of ?g 625000000]
      mult_div_mod_eq [of ?g 900000000] pos_mod_sign [of ?g 900000000]
    by linarith+
  have d0: "0 \<le> ?d" using pos by (simp add: pos_imp_zdiv_nonneg_iff)
  have nb: "0 \<le> ?g * ?d" "?g * ?d \<le> 900000000"
    using pos d0 m1 by (auto split: if_splits)
  let ?n = "G * ?D"
  have n: "sint ?n = ?g * ?d"
    using nb sint_mult_32 [of G ?D] unfolding D by simp
  have A: "sint (sdiv32 ?n 25000000) = (?g * ?d) div 25000000"
    using sint_sdiv32_pos [of ?n 25000000] nb unfolding n by simp
  have R: "sint (smod32 ?n 25000000) = (?g * ?d) mod 25000000"
    using sint_smod32_pos [of ?n 25000000] nb unfolding n by simp
  have R0: "0 \<le> sint (smod32 ?n 25000000)" unfolding R by simp
  have B: "sint (sdiv32 (smod32 ?n 25000000) 24) = ((?g * ?d) mod 25000000) div 24"
    using sint_sdiv32_pos [OF R0, of 24] unfolding R by simp
  have c: "sdiv32 25000000 24 = 1041666" by (simp add: sdiv32_def signed_divide_int_def)
  have "si5351_CalcIQ c F p out =
            Some (p\<lparr>pll_mult := sdiv32 ?n 25000000, pll_num := sdiv32 (smod32 ?n 25000000) 24,
                    pll_denom := 1041666\<rparr>,
                  out\<lparr>out_allowIntegerMode := False, out_rdiv := SI5351_R_DIV_1, out_div := ?D,
                      out_num := 0, out_denom := 1\<rparr>)"
    using G G0 by (simp add: si5351_CalcIQ_def Let_def c c_div_def)
  then show ?thesis using A B D by blast
qed

lemma apply_correction_wrap:
  assumes S: "0 \<le> sint S" "sint S \<le> 160000000"
  shows "sint (apply_correction c S) = adjusted_int32 (sint S) (sint c)"
proof -
  let ?q = "sdiv32 S 1000000"
  have q: "sint ?q = sint S div 1000000"
    using S sint_sdiv32_pos [of S 1000000] by simp
  have prod: "sint (?q * c) = signed_take_bit 31 (sint ?q * sint c)"
    by (simp add: sint_word_mult)
  let ?x = "sdiv32 (?q * c) 100"
  have x: "sint ?x = sint (?q * c) sdiv 100" by (rule sint_sdiv32_100)
  have xb: "- 21474836 \<le> sint ?x" "sint ?x \<le> 21474836"
    unfolding x using sdiv_100_bounds [of "sint (?q * c)"] sint_range_32 [of "?q * c"]
    by simp_all
  have "sint (S - ?x) = sint S - sint ?x"
    using S xb by (intro sint_diff_32) simp_all
  moreover have "sint S sdiv 1000000 = sint S div 1000000"
    using S by (simp add: sdiv_nonneg)
  ultimately show ?thesis
    by (simp add: apply_correction_def adjusted_int32_def x prod q)
qed

lemma adjusted_int32_fits:
  assumes "- 2147483648 \<le> (raw sdiv 1000000) * correction"
    and "(raw sdiv 1000000) * correction < 2147483648"
  shows "adjusted_int32 raw correction = spec_adjusted raw correction"
  using assms by (simp add: adjusted_int32_def spec_adjusted_def signed_take_bit_int_eq_self)

lemma CalcIQ_out:
  fixes c F :: int32
  defines "g \<equiv> sint (CalcIQ_Fclk c F)"
  shows "\<exists>p' D. si5351_CalcIQ c F p out =
            Some (p', out\<lparr>out_allowIntegerMode := False, out_rdiv := SI5351_R_DIV_1,
                          out_div := D, out_num := 0, out_denom := 1\<rparr>)
          \<and> sint D = (if g < 4900000 then 127 else if g < 8000000 then 625000000 div g
                       else 900000000 div g)"
proof -
  let ?G = "CalcIQ_Fclk c F"
  show ?thesis
  proof (cases "g < 4900000")
    case True
    then have l: "?G <s 4900000" by (simp add: g_def word_sless_alt)
    have D: "sint (127 :: int32) = 127" by simp
    have "si5351_CalcIQ c F p out =
            Some (p\<lparr>pll_mult := sdiv32 (?G * 127) 25000000,
                    pll_num := sdiv32 (smod32 (?G * 127) 25000000) 24,
                    pll_denom := sdiv32 25000000 24\<rparr>,
                  out\<lparr>out_allowIntegerMode := False, out_rdiv := SI5351_R_DIV_1,
                      out_div := 127, out_num := 0, out_denom := 1\<rparr>)"
      using l by (simp add: si5351_CalcIQ_def Let_def)
    then show ?thesis using D True by auto
  next
    case False
    then have n1: "\<not> ?G <s 4900000" by (simp add: g_def word_sless_alt)
    have pos: "0 < sint ?G" using False by (simp add: g_def)
    then have G0: "?G \<noteq> 0" by auto
    show ?thesis
    proof (cases "g < 8000000")
      case True
      then have l: "?G <s 8000000" by (simp add: g_def word_sless_alt)
      have D: "sint (sdiv32 625000000 ?G) = 625000000 div g"
        using pos sint_sdiv32_pos [of 625000000 ?G] by (simp add: g_def)
      have "si5351_CalcIQ c F p out =
            Some (p\<lparr>pll_mult := sdiv32 (?G * sdiv32 625000000 ?G) 25000000,
                    pll_num := sdiv32 (smod32 (?G * sdiv32 625000000 ?G) 25000000) 24,
                    pll_denom := sdiv32 25000000 24\<rparr>,
                  out\<lparr>out_allowIntegerMode := False, out_rdiv := SI5351_R_DIV_1,
                      out_div := sdiv32 625000000 ?G, out_num := 0, out_denom := 1\<rparr>)"
        using n1 l G0 by (simp add: si5351_CalcIQ_def Let_def c_div_def)
      then show ?thesis using D True False by auto
    next
      case F2: False
      then have l: "\<not> ?G <s 8000000" by (simp add: g_def word_sless_alt)
      have D: "sint (sdiv32 900000000 ?G) = 900000000 div g"
        using pos sint_sdiv32_pos [of 900000000 ?G] by (simp add: g_def)
      have "si5351_CalcIQ c F p out =
            Some (p\<lparr>pll_mult := sdiv32 (?G * sdiv32 900000000 ?G) 25000000,
                    pll_num := sdiv32 (smod32 (?G * sdiv32 900000000 ?G) 25000000) 24,
                    pll_denom := sdiv32 25000000 24\<rparr>,
                  out\<lparr>out_allowIntegerMode := False, out_rdiv := SI5351_R_DIV_1,
                      out_div := sdiv32 900000000 ?G, out_num := 0, out_denom := 1\<rparr>)"
        using n1 l G0 by (simp add: si5351_CalcIQ_def Let_def c_div_def)
      then show ?thesis using D F2 False by auto
    qed
  qed
qed

section \<open>The standard planner below 81 MHz\<close>

text \<open>
  C6.  With correction 0, whenever the adjusted target \<open>Fclk\<close> that \<open>si5351_Calc\<close> plans
  for (the clamped target, times 64 when that is below 1 MHz) satisfies
  \<open>1,000,000 \<le> Fclk < 81,000,000\<close>, the planner returns the PLL parameters 36, 0, 1 and the
  output parameters \<open>900,000,000 / Fclk\<close>, \<open>(900,000,000 mod Fclk) / t\<close> and \<open>Fclk / t\<close> with
  \<open>t = (Fclk >> 20) + 1\<close>, all integer divisions.  For 10 MHz that is PLL \<open>{36, 0, 1}\<close> and
  output \<open>{90, 0, 1,000,000}\<close> with R divider exponent 0, which reconstructs 10,000,000 Hz
  exactly.
\<close>

theorem Calc_below_81MHz:
  assumes "Calc_Fclk 0 Fclk0 = (Fclk, rdiv)"
    and "1000000 \<le> sint Fclk" and "sint Fclk < 81000000"
  shows "(\<exists>x y z. si5351_Calc 0 Fclk0 p out =
            Some (p\<lparr>pll_mult := 36, pll_num := 0, pll_denom := 1\<rparr>,
                  out\<lparr>out_allowIntegerMode := True, out_rdiv := rdiv, out_div := x,
                      out_num := y, out_denom := z\<rparr>)
          \<and> sint x = 900000000 div sint Fclk
          \<and> sint y = (900000000 mod sint Fclk) div (sint Fclk div 2 ^ 20 + 1)
          \<and> sint z = sint Fclk div (sint Fclk div 2 ^ 20 + 1))
    \<and> si5351_Calc 0 10000000 p out =
          Some (p\<lparr>pll_mult := 36, pll_num := 0, pll_denom := 1\<rparr>,
                out\<lparr>out_allowIntegerMode := True, out_rdiv := 0, out_div := 90,
                    out_num := 0, out_denom := 1000000\<rparr>)
    \<and> found_frequency (p\<lparr>pll_mult := 36, pll_num := 0, pll_denom := 1\<rparr>)
          (out\<lparr>out_allowIntegerMode := True, out_rdiv := 0, out_div := 90,
               out_num := 0, out_denom := 1000000\<rparr>) = 10000000"
proof (intro conjI)
  have pos: "0 < sint Fclk" using assms(2) by simp
  from Calc_low [OF assms(1) pos assms(3), of p out]
  show "\<exists>x y z. si5351_Calc 0 Fclk0 p out =
            Some (p\<lparr>pll_mult := 36, pll_num := 0, pll_denom := 1\<rparr>,
                  out\<lparr>out_allowIntegerMode := True, out_rdiv := rdiv, out_div := x,
                      out_num := y, out_denom := z\<rparr>)
          \<and> sint x = 900000000 div sint Fclk
          \<and> sint y = (900000000 mod sint Fclk) div (sint Fclk div 2 ^ 20 + 1)
          \<and> sint z = sint Fclk div (sint Fclk div 2 ^ 20 + 1)"
    by simp
  show "si5351_Calc 0 10000000 p out =
          Some (p\<lparr>pll_mult := 36, pll_num := 0, pll_denom := 1\<rparr>,
                out\<lparr>out_allowIntegerMode := True, out_rdiv := 0, out_div := 90,
                    out_num := 0, out_denom := 1000000\<rparr>)"
    by (simp add: si5351_Calc_def Calc_Fclk_def apply_correction_0 word_sless_alt word_sle_eq
        c_div_def c_mod_def sdiv32_def smod32_def signed_divide_int_def signed_modulo_int_def
        register_defs)
  show "found_frequency (p\<lparr>pll_mult := 36, pll_num := 0, pll_denom := 1\<rparr>)
          (out\<lparr>out_allowIntegerMode := True, out_rdiv := 0, out_div := 90,
               out_num := 0, out_denom := 1000000\<rparr>) = 10000000"
    by (simp add: found_frequency_def pll_frequency_def)
qed

theorem Calc_below_81MHz_witness:
  "Calc_Fclk 0 400000 = (25600000, SI5351_R_DIV_64)
   \<and> 1000000 \<le> sint (25600000 :: int32) \<and> sint (25600000 :: int32) < 81000000
   \<and> si5351_Calc 0 400000
        \<lparr>pll_allowIntegerMode = False, pll_mult = 0, pll_num = 0, pll_denom = 0\<rparr>
        \<lparr>out_allowIntegerMode = False, out_inverted = 0, out_div = 0, out_num = 0,
         out_denom = 0, out_rdiv = 0\<rparr> =
       Some (\<lparr>pll_allowIntegerMode = False, pll_mult = 36, pll_num = 0, pll_denom = 1\<rparr>,
             \<lparr>out_allowIntegerMode = True, out_inverted = 0, out_div = 35, out_num = 160000,
              out_denom = 1024000, out_rdiv = SI5351_R_DIV_64\<rparr>)"
proof -
  let ?p = "\<lparr>pll_allowIntegerMode = False, pll_mult = 0, pll_num = 0, pll_denom = 0\<rparr>"
  let ?o = "\<lparr>out_allowIntegerMode = False, out_inverted = 0, out_div = 0, out_num = 0,
         out_denom = 0, out_rdiv = 0\<rparr>"
  have a: "Calc_Fclk 0 400000 = (25600000, SI5351_R_DIV_64)"
    by (simp add: Calc_Fclk_def apply_correction_0 word_sless_alt)
  have b: "1000000 \<le> sint (25600000 :: int32)" "sint (25600000 :: int32) < 81000000"
    by simp_all
  from Calc_below_81MHz [OF a b, of ?p ?o]
  obtain x y z where r: "si5351_Calc 0 400000 ?p ?o =
            Some (?p\<lparr>pll_mult := 36, pll_num := 0, pll_denom := 1\<rparr>,
                  ?o\<lparr>out_allowIntegerMode := True, out_rdiv := SI5351_R_DIV_64, out_div := x,
                      out_num := y, out_denom := z\<rparr>)"
      and x: "sint x = 900000000 div sint (25600000 :: int32)"
      and y: "sint y = (900000000 mod sint (25600000 :: int32)) div (sint (25600000 :: int32) div 2 ^ 20 + 1)"
      and z: "sint z = sint (25600000 :: int32) div (sint (25600000 :: int32) div 2 ^ 20 + 1)"
    by blast
  have "sint x = sint (35 :: int32)" "sint y = sint (160000 :: int32)"
    "sint z = sint (1024000 :: int32)"
    using x y z by simp_all
  then have "x = 35" "y = 160000" "z = 1024000"
    by (simp_all only: signed_word_eqI)
  then show ?thesis using a b r by simp
qed

section \<open>The quadrature planner\<close>

text \<open>
  C7.  For every \<open>int32_t\<close> target and every correction, \<open>si5351_CalcIQ\<close> returns, with
  integer mode not allowed, R divider exponent 0, output fraction 0/1, and the divider chosen
  from the clamped, corrected target \<open>f\<close>: 127 below 4.9 MHz, \<open>625,000,000 / f\<close> below 8 MHz,
  and \<open>900,000,000 / f\<close> otherwise.  Here \<open>f\<close> is the correction formula applied to the
  target clamped to [1.4 MHz, 100 MHz], with the product taken in \<open>int32_t\<close>; it is the
  clamped target itself at correction 0, and the value of the formula over the integers
  whenever the product fits \<open>int32_t\<close>.
\<close>

theorem CalcIQ_output_parameters:
  fixes Fclk correction :: int32
  defines "Q \<equiv> max 1400000 (min 100000000 (sint Fclk))"
  defines "f \<equiv> adjusted_int32 Q (sint correction)"
  shows "(\<exists>p' out'. si5351_CalcIQ correction Fclk p out = Some (p', out')
      \<and> \<not> out_allowIntegerMode out' \<and> out_rdiv out' = SI5351_R_DIV_1 \<and> SI5351_R_DIV_1 = 0
      \<and> out_num out' = 0 \<and> out_denom out' = 1
      \<and> sint (out_div out') =
          (if f < 4900000 then 127 else if f < 8000000 then 625000000 div f
           else 900000000 div f))
    \<and> sint (CalcIQ_Fclk correction Fclk) = f
    \<and> adjusted_int32 Q 0 = Q
    \<and> (- 2147483648 \<le> (Q div 1000000) * sint correction
         \<and> (Q div 1000000) * sint correction < 2147483648
        \<longrightarrow> f = spec_adjusted Q (sint correction))"
proof -
  obtain S where S: "CalcIQ_Fclk correction Fclk = apply_correction correction S" "sint S = Q"
    using CalcIQ_Fclk_stages [of correction Fclk] unfolding Q_def by blast
  have Qr: "0 \<le> Q" "Q \<le> 160000000" by (simp_all add: Q_def)
  have g: "sint (CalcIQ_Fclk correction Fclk) = f"
    using apply_correction_wrap [of S correction] Qr unfolding S f_def by simp
  have 1: "\<exists>p' out'. si5351_CalcIQ correction Fclk p out = Some (p', out')
      \<and> \<not> out_allowIntegerMode out' \<and> out_rdiv out' = SI5351_R_DIV_1 \<and> SI5351_R_DIV_1 = 0
      \<and> out_num out' = 0 \<and> out_denom out' = 1
      \<and> sint (out_div out') =
          (if f < 4900000 then 127 else if f < 8000000 then 625000000 div f
           else 900000000 div f)"
    using CalcIQ_out [of correction Fclk p out] unfolding g
    by (auto simp add: SI5351_R_DIV_1_def)
  have 3: "adjusted_int32 Q 0 = Q" by (simp add: adjusted_int32_def)
  have Qd: "Q sdiv 1000000 = Q div 1000000" using Qr by (simp add: sdiv_nonneg)
  have 4: "- 2147483648 \<le> (Q div 1000000) * sint correction
         \<and> (Q div 1000000) * sint correction < 2147483648
        \<longrightarrow> f = spec_adjusted Q (sint correction)"
    unfolding f_def using adjusted_int32_fits [of Q "sint correction"] unfolding Qd by simp
  show ?thesis using 1 g 3 4 by blast
qed

theorem CalcIQ_output_parameters_witness:
  "(- 2147483648 \<le> (max 1400000 (min 100000000 (sint (8000000 :: int32))) div 1000000)
                       * sint (2000000 :: int32)
    \<and> (max 1400000 (min 100000000 (sint (8000000 :: int32))) div 1000000)
         * sint (2000000 :: int32) < 2147483648)
   \<and> (\<exists>p' out'. si5351_CalcIQ 2000000 8000000
        \<lparr>pll_allowIntegerMode = False, pll_mult = 0, pll_num = 0, pll_denom = 0\<rparr>
        \<lparr>out_allowIntegerMode = True, out_inverted = 0, out_div = 0, out_num = 5,
         out_denom = 0, out_rdiv = 6\<rparr> = Some (p', out')
      \<and> \<not> out_allowIntegerMode out' \<and> out_rdiv out' = 0
      \<and> out_num out' = 0 \<and> out_denom out' = 1 \<and> sint (out_div out') = 79)
   \<and> sint (CalcIQ_Fclk 2000000 8000000) = 7840000
   \<and> spec_adjusted 8000000 2000000 = 7840000"
proof -
  have h: "- 2147483648 \<le> (max 1400000 (min 100000000 (sint (8000000 :: int32))) div 1000000)
                       * sint (2000000 :: int32)
    \<and> (max 1400000 (min 100000000 (sint (8000000 :: int32))) div 1000000)
         * sint (2000000 :: int32) < 2147483648"
    by simp
  have a: "adjusted_int32 8000000 2000000 = 7840000"
    by (simp add: adjusted_int32_def signed_take_bit_int_eq_self signed_divide_int_def)
  have b: "spec_adjusted 8000000 2000000 = 7840000"
    by (simp add: spec_adjusted_def signed_divide_int_def)
  show ?thesis
    using h b CalcIQ_output_parameters [of 2000000 8000000
        "\<lparr>pll_allowIntegerMode = False, pll_mult = 0, pll_num = 0, pll_denom = 0\<rparr>"
        "\<lparr>out_allowIntegerMode = True, out_inverted = 0, out_div = 0, out_num = 5,
         out_denom = 0, out_rdiv = 6\<rparr>"]
    by (auto simp add: SI5351_R_DIV_1_def a)
qed

section \<open>The correction formula\<close>

text \<open>
  C8, as the code has it.  In both planners the adjusted target is
  \<open>Fclk - (Fclk / 1,000,000) * correction / 100\<close> over the integers, each division truncating,
  of the clamped (and in \<open>si5351_Calc\<close> possibly 64 times scaled) target, provided the product
  \<open>(Fclk / 1,000,000) * correction\<close> fits \<open>int32_t\<close>.  In \<open>si5351_Calc\<close> the R divider
  is fixed by the clamped target alone, before and whatever the correction.  Correction 970
  takes 10,000,097 Hz to 10,000,000 Hz.
\<close>

theorem correction_applied:
  fixes Fclk correction :: int32
  defines "k \<equiv> max 8000 (min 160000000 (sint Fclk))"
  defines "T \<equiv> (if k < 1000000 then 64 * k else k)"
  defines "Q \<equiv> max 1400000 (min 100000000 (sint Fclk))"
  shows "(- 2147483648 \<le> (T div 1000000) * sint correction
            \<and> (T div 1000000) * sint correction < 2147483648
          \<longrightarrow> sint (fst (Calc_Fclk correction Fclk)) = spec_adjusted T (sint correction))
       \<and> snd (Calc_Fclk correction Fclk)
            = (if k < 1000000 then SI5351_R_DIV_64 else SI5351_R_DIV_1)
       \<and> (\<forall>p out p' out'. si5351_Calc correction Fclk p out = Some (p', out')
            \<longrightarrow> out_rdiv out' = (if k < 1000000 then SI5351_R_DIV_64 else SI5351_R_DIV_1))
       \<and> (- 2147483648 \<le> (Q div 1000000) * sint correction
            \<and> (Q div 1000000) * sint correction < 2147483648
          \<longrightarrow> sint (CalcIQ_Fclk correction Fclk) = spec_adjusted Q (sint correction))
       \<and> Calc_Fclk 970 10000097 = (10000000, SI5351_R_DIV_1)
       \<and> CalcIQ_Fclk 970 10000097 = 10000000
       \<and> spec_adjusted 10000097 970 = 10000000"
proof -
  obtain S where S: "Calc_Fclk correction Fclk =
             (apply_correction correction S,
              if k < 1000000 then SI5351_R_DIV_64 else SI5351_R_DIV_1)"
      "sint S = T"
    using Calc_Fclk_stages [of correction Fclk] unfolding k_def T_def by blast
  have kr: "8000 \<le> k" "k \<le> 160000000" by (simp_all add: k_def)
  have Tr: "0 \<le> T" "T \<le> 160000000" using kr by (simp_all add: T_def)
  obtain S' where S': "CalcIQ_Fclk correction Fclk = apply_correction correction S'"
      "sint S' = Q"
    using CalcIQ_Fclk_stages [of correction Fclk] unfolding Q_def by blast
  have Qr: "0 \<le> Q" "Q \<le> 160000000" by (simp_all add: Q_def)
  have 1: "- 2147483648 \<le> (T div 1000000) * sint correction
            \<and> (T div 1000000) * sint correction < 2147483648
          \<longrightarrow> sint (fst (Calc_Fclk correction Fclk)) = spec_adjusted T (sint correction)"
    using apply_correction_exact [of S correction] Tr unfolding S by simp
  have 2: "snd (Calc_Fclk correction Fclk)
            = (if k < 1000000 then SI5351_R_DIV_64 else SI5351_R_DIV_1)"
    unfolding S by simp
  have 3: "\<forall>p out p' out'. si5351_Calc correction Fclk p out = Some (p', out')
            \<longrightarrow> out_rdiv out' = (if k < 1000000 then SI5351_R_DIV_64 else SI5351_R_DIV_1)"
    using Calc_rdiv [of correction Fclk] 2 by metis
  have 4: "- 2147483648 \<le> (Q div 1000000) * sint correction
            \<and> (Q div 1000000) * sint correction < 2147483648
          \<longrightarrow> sint (CalcIQ_Fclk correction Fclk) = spec_adjusted Q (sint correction)"
    using apply_correction_exact [of S' correction] Qr unfolding S' by simp
  have 5: "Calc_Fclk 970 10000097 = (10000000, SI5351_R_DIV_1)"
    "CalcIQ_Fclk 970 10000097 = 10000000" "spec_adjusted 10000097 970 = 10000000"
    by (simp_all add: Calc_Fclk_def CalcIQ_Fclk_def apply_correction_def word_sless_alt
        sdiv32_def signed_divide_int_def spec_adjusted_def)
  show ?thesis using 1 2 3 4 5 by blast
qed

theorem correction_applied_witness:
  "sint (fst (Calc_Fclk (- 970) 400000)) = 25600242
   \<and> snd (Calc_Fclk (- 970) 400000) = SI5351_R_DIV_64
   \<and> sint (CalcIQ_Fclk (- 970) 400000) = 1400009"
proof -
  have a: "- 2147483648 \<le> ((if max 8000 (min 160000000 (sint (400000 :: int32))) < 1000000
              then 64 * max 8000 (min 160000000 (sint (400000 :: int32)))
              else max 8000 (min 160000000 (sint (400000 :: int32)))) div 1000000) * sint (- 970 :: int32)
      \<and> ((if max 8000 (min 160000000 (sint (400000 :: int32))) < 1000000
              then 64 * max 8000 (min 160000000 (sint (400000 :: int32)))
              else max 8000 (min 160000000 (sint (400000 :: int32)))) div 1000000) * sint (- 970 :: int32) < 2147483648"
    by simp
  have b: "- 2147483648 \<le> (max 1400000 (min 100000000 (sint (400000 :: int32))) div 1000000) * sint (- 970 :: int32)
      \<and> (max 1400000 (min 100000000 (sint (400000 :: int32))) div 1000000) * sint (- 970 :: int32) < 2147483648"
    by simp
  show ?thesis
    using a b correction_applied [of 400000 "- 970"]
    by (simp add: spec_adjusted_def signed_divide_int_def)
qed

text \<open>
  The claim for every correction value fails where the product overflows: at 160 MHz and
  correction 13,421,773 the product \<open>160 * 13,421,773\<close> exceeds \<open>2^31 - 1\<close>, the code
  plans for 181,474,836 Hz and the formula gives 138,525,164 Hz.
\<close>

theorem correction_applied_counterexample:
  "Calc_Fclk 13421773 160000000 = (181474836, SI5351_R_DIV_1)
   \<and> spec_adjusted 160000000 13421773 = 138525164"
  by (simp add: Calc_Fclk_def apply_correction_def word_sless_alt
        sdiv32_def signed_divide_int_def spec_adjusted_def)

section \<open>Accuracy and fraction bounds of the standard planner\<close>

text \<open>
  C1 does not hold of the code.  For the target 80,740,378 Hz (correction 0) the planner
  returns PLL \<open>{36, 0, 1}\<close> and output \<open>{11, 151997, 1035133}\<close> with R divider exponent 0;
  the frequency these reconstruct is \<open>3903106 / 576923\<close> Hz, more than 6 Hz, above the
  target.
\<close>

theorem Calc_error_above_6Hz:
  "si5351_Calc 0 80740378 p out =
      Some (p\<lparr>pll_mult := 36, pll_num := 0, pll_denom := 1\<rparr>,
            out\<lparr>out_allowIntegerMode := True, out_rdiv := 0, out_div := 11,
                out_num := 151997, out_denom := 1035133\<rparr>)
   \<and> found_frequency (p\<lparr>pll_mult := 36, pll_num := 0, pll_denom := 1\<rparr>)
            (out\<lparr>out_allowIntegerMode := True, out_rdiv := 0, out_div := 11,
                out_num := 151997, out_denom := 1035133\<rparr>) - 80740378 = 3903106 / 576923
   \<and> (6 :: rat) < 3903106 / 576923"
proof (intro conjI)
  show "si5351_Calc 0 80740378 p out =
      Some (p\<lparr>pll_mult := 36, pll_num := 0, pll_denom := 1\<rparr>,
            out\<lparr>out_allowIntegerMode := True, out_rdiv := 0, out_div := 11,
                out_num := 151997, out_denom := 1035133\<rparr>)"
    by (simp add: si5351_Calc_def Calc_Fclk_def apply_correction_0 word_sless_alt word_sle_eq
      c_div_def c_mod_def sdiv32_def smod32_def signed_divide_int_def signed_modulo_int_def
      register_defs)
  show "found_frequency (p\<lparr>pll_mult := 36, pll_num := 0, pll_denom := 1\<rparr>)
            (out\<lparr>out_allowIntegerMode := True, out_rdiv := 0, out_div := 11,
                out_num := 151997, out_denom := 1035133\<rparr>) - 80740378 = 3903106 / 576923"
    by (simp add: found_frequency_def pll_frequency_def)
  show "(6 :: rat) < 3903106 / 576923" by simp
qed

text \<open>
  C9 does not hold of the code.  For the target 81,249,999 Hz (correction 0) the planner
  returns the PLL fraction \<open>1041666 / 1041666\<close>: the denominator exceeds 1 and the numerator
  is not below it.
\<close>

theorem Calc_fraction_not_proper:
  "si5351_Calc 0 81249999 p out =
      Some (p\<lparr>pll_mult := 25, pll_num := 1041666, pll_denom := 1041666\<rparr>,
            out\<lparr>out_allowIntegerMode := True, out_rdiv := 0, out_div := 8,
                out_num := 0, out_denom := 1\<rparr>)
   \<and> 1 < sint (1041666 :: int32) \<and> \<not> sint (1041666 :: int32) < sint (1041666 :: int32)"
  by (simp add: si5351_Calc_def Calc_Fclk_def apply_correction_0 word_sless_alt word_sle_eq
      c_div_def c_mod_def sdiv32_def smod32_def signed_divide_int_def signed_modulo_int_def
      register_defs)

section \<open>The PLL multiplier and frequency\<close>

lemma rat_frequency_bounds:
  fixes a b :: int
  assumes "24 \<le> a" and "a \<le> 35 \<or> (a = 36 \<and> b = 0)" and "0 \<le> b" and "b \<le> 1041666"
  shows "600000000 \<le> 25000000 * ((of_int a :: rat) + of_int b / 1041666)
       \<and> 25000000 * ((of_int a :: rat) + of_int b / 1041666) \<le> 900000000"
proof -
  have a1: "(24 :: rat) \<le> of_int a" using assms(1) by (metis of_int_le_iff of_int_numeral)
  have "(0 :: rat) \<le> of_int b" using assms(3) by (simp only: of_int_0_le_iff)
  then have b0: "(0 :: rat) \<le> of_int b / 1041666" by simp
  have "(of_int b :: rat) \<le> 1041666" using assms(4) by (metis of_int_le_iff of_int_numeral)
  then have b1: "(of_int b :: rat) / 1041666 \<le> 1" by simp
  from assms(2) have up: "(of_int a :: rat) + of_int b / 1041666 \<le> 36"
  proof
    assume "a \<le> 35"
    then have "(of_int a :: rat) \<le> 35" by (metis of_int_le_iff of_int_numeral)
    then show ?thesis using b1 by linarith
  next
    assume "a = 36 \<and> b = 0"
    then show ?thesis by simp
  qed
  define x :: rat where "x = of_int a + of_int b / 1041666"
  have lo: "24 \<le> x" using a1 b0 unfolding x_def by linarith
  have hi: "x \<le> 36" using up unfolding x_def .
  have "25000000 * 24 \<le> 25000000 * x" using lo by (intro mult_left_mono) simp_all
  moreover have "25000000 * x \<le> 25000000 * 36" using hi by (intro mult_left_mono) simp_all
  ultimately have "600000000 \<le> 25000000 * x \<and> 25000000 * x \<le> 900000000" by simp
  then show ?thesis unfolding x_def .
qed

lemma pll_frequency_bounds:
  assumes "24 \<le> sint (pll_mult p)"
    and "sint (pll_mult p) \<le> 35 \<or> (sint (pll_mult p) = 36 \<and> sint (pll_num p) = 0)"
    and "0 \<le> sint (pll_num p)" and "sint (pll_num p) \<le> 1041666"
    and c: "pll_denom p = 1041666"
  shows "600000000 \<le> pll_frequency p \<and> pll_frequency p \<le> 900000000"
  using rat_frequency_bounds [OF assms(1-4)] by (simp add: pll_frequency_def c)

lemma div_mult_bounds:
  fixes g K :: int
  assumes "0 < g"
  shows "g * (K div g) \<le> K" and "K - g < g * (K div g)"
  using assms mult_div_mod_eq [of g K] pos_mod_sign [of g K] pos_mod_bound [of g K]
  by linarith+

lemma mult_range:
  fixes n :: int
  assumes "177800000 \<le> n" and "n \<le> 900000000"
  shows "7 \<le> n div 25000000" and "n div 25000000 \<le> 36"
    and "24 \<le> n div 25000000 \<longleftrightarrow> 600000000 \<le> n"
  using assms by arith+

lemma mult_top:
  fixes n :: int
  assumes "n \<le> 900000000" and "n div 25000000 = 36"
  shows "(n mod 25000000) div 24 = 0"
proof -
  have "n = 900000000" using assms by arith
  then show ?thesis by simp
qed

lemma Calc_multiplier:
  "\<exists>p' out'. si5351_Calc 0 Fclk p out = Some (p', out')
      \<and> 24 \<le> sint (pll_mult p') \<and> sint (pll_mult p') \<le> 36
      \<and> 600000000 \<le> pll_frequency p' \<and> pll_frequency p' \<le> 900000000"
proof -
  define k where "k = max 8000 (min 160000000 (sint Fclk))"
  obtain S where S: "Calc_Fclk 0 Fclk =
             (apply_correction 0 S, if k < 1000000 then SI5351_R_DIV_64 else SI5351_R_DIV_1)"
      "sint S = (if k < 1000000 then 64 * k else k)"
    using Calc_Fclk_stages [of 0 Fclk] unfolding k_def by blast
  let ?rd = "if k < 1000000 then SI5351_R_DIV_64 else SI5351_R_DIV_1"
  have G: "Calc_Fclk 0 Fclk = (S, ?rd)" using S(1) by (simp add: apply_correction_0)
  have kr: "8000 \<le> k" "k \<le> 160000000" by (simp_all add: k_def)
  have Sr: "0 < sint S" "sint S \<le> 160000000" using kr unfolding S(2) by (simp_all split: if_splits)
  show ?thesis
  proof (cases "sint S < 81000000")
    case True
    from Calc_low [OF G Sr(1) True, of p out] show ?thesis
      by (auto simp add: pll_frequency_def)
  next
    case False
    then have ge: "81000000 \<le> sint S" by simp
    from Calc_high [OF G ge Sr(2), of p out]
    obtain A B x where r: "si5351_Calc 0 Fclk p out =
            Some (p\<lparr>pll_mult := A, pll_num := B, pll_denom := 1041666\<rparr>,
                  out\<lparr>out_allowIntegerMode := True, out_rdiv := ?rd, out_div := word_of_int x,
                      out_num := 0, out_denom := 1\<rparr>)"
      and x: "x = (if 150000000 \<le> sint S then 4 else if 100000000 \<le> sint S then 6 else 8)"
      and A: "sint A = (x * sint S) div 25000000"
      and B: "sint B = ((x * sint S) mod 25000000) div 24"
      by blast
    have n: "600000000 \<le> x * sint S" "x * sint S < 900000000"
      using ge Sr(2) unfolding x by (simp_all split: if_splits)
    have Ar: "24 \<le> sint A" "sint A \<le> 35" using n unfolding A by arith+
    have Br: "0 \<le> sint B" "sint B \<le> 1041666" unfolding B by arith+
    let ?p' = "p\<lparr>pll_mult := A, pll_num := B, pll_denom := 1041666\<rparr>"
    have "600000000 \<le> pll_frequency ?p' \<and> pll_frequency ?p' \<le> 900000000"
      using Ar Br by (intro pll_frequency_bounds) simp_all
    then show ?thesis using r Ar by simp
  qed
qed

lemma CalcIQ_multiplier:
  "\<exists>p' out'. si5351_CalcIQ 0 Fclk p out = Some (p', out')
      \<and> 7 \<le> sint (pll_mult p') \<and> sint (pll_mult p') \<le> 36
      \<and> (24 \<le> sint (pll_mult p') \<longleftrightarrow> 4724410 \<le> sint Fclk)
      \<and> (4724410 \<le> sint Fclk
           \<longrightarrow> 600000000 \<le> pll_frequency p' \<and> pll_frequency p' \<le> 900000000)"
proof -
  define f where "f = max 1400000 (min 100000000 (sint Fclk))"
  obtain S where S: "CalcIQ_Fclk 0 Fclk = apply_correction 0 S" "sint S = f"
    using CalcIQ_Fclk_stages [of 0 Fclk] unfolding f_def by blast
  have G: "CalcIQ_Fclk 0 Fclk = S" using S(1) by (simp add: apply_correction_0)
  have fr: "1400000 \<le> f" "f \<le> 100000000" unfolding f_def by simp_all
  have ff: "4724410 \<le> sint Fclk \<longleftrightarrow> 4724410 \<le> f" unfolding f_def by auto
  define d where "d = (if f < 4900000 then 127 else if f < 8000000 then 625000000 div f
                  else 900000000 div f)"
  have Sr: "1400000 \<le> sint S" "sint S \<le> 100000000" using fr by (simp_all only: S(2))
  from CalcIQ_int [OF G Sr, of p out]
  obtain A B D d' where r: "si5351_CalcIQ 0 Fclk p out =
            Some (p\<lparr>pll_mult := A, pll_num := B, pll_denom := 1041666\<rparr>,
                  out\<lparr>out_allowIntegerMode := False, out_rdiv := SI5351_R_DIV_1, out_div := D,
                      out_num := 0, out_denom := 1\<rparr>)"
      and d': "d' = (if sint S < 4900000 then 127 else if sint S < 8000000
                     then 625000000 div sint S else 900000000 div sint S)"
      and A': "sint A = (sint S * d') div 25000000"
      and B': "sint B = ((sint S * d') mod 25000000) div 24"
    by blast
  have "d' = d" unfolding d' d_def S(2) by (rule refl)
  then have A: "sint A = (f * d) div 25000000"
    and B: "sint B = ((f * d) mod 25000000) div 24"
    using A' B' S(2) by simp_all
  have Br: "0 \<le> sint B" "sint B \<le> 1041666" unfolding B by arith+
  have pos: "0 < f" using fr by simp
  define n where "n = f * d"
  have An: "sint A = n div 25000000" and Bn: "sint B = (n mod 25000000) div 24"
    using A B by (simp_all add: n_def)
  have nb: "177800000 \<le> n \<and> n \<le> 900000000 \<and> (600000000 \<le> n \<longleftrightarrow> 4724410 \<le> f)"
  proof (cases "f < 4900000")
    case True
    then have "n = f * 127" by (simp add: n_def d_def)
    then show ?thesis using True fr by arith
  next
    case False
    show ?thesis
    proof (cases "f < 8000000")
      case True
      then have d: "d = 625000000 div f" using False by (simp add: d_def)
      have "n \<le> 625000000" "625000000 - f < n"
        unfolding n_def d using div_mult_bounds [OF pos, of 625000000] by simp_all
      then show ?thesis using True False by simp
    next
      case F2: False
      then have d: "d = 900000000 div f" using False by (simp add: d_def)
      have "n \<le> 900000000" "900000000 - f < n"
        unfolding n_def d using div_mult_bounds [OF pos, of 900000000] by simp_all
      then show ?thesis using F2 fr by simp
    qed
  qed
  have facts: "7 \<le> sint A \<and> sint A \<le> 36 \<and> (24 \<le> sint A \<longleftrightarrow> 4724410 \<le> f)
      \<and> (sint A = 36 \<longrightarrow> sint B = 0)"
    using nb mult_range [of n] mult_top [of n] unfolding An Bn by blast
  let ?p' = "p\<lparr>pll_mult := A, pll_num := B, pll_denom := 1041666\<rparr>"
  have "4724410 \<le> f \<longrightarrow> 600000000 \<le> pll_frequency ?p' \<and> pll_frequency ?p' \<le> 900000000"
  proof
    assume "4724410 \<le> f"
    then have "24 \<le> sint A" using facts by simp
    moreover have "sint A \<le> 35 \<or> (sint A = 36 \<and> sint B = 0)" using facts by arith
    ultimately show "600000000 \<le> pll_frequency ?p' \<and> pll_frequency ?p' \<le> 900000000"
      using Br by (intro pll_frequency_bounds) simp_all
  qed
  then show ?thesis using r facts ff by simp
qed

text \<open>
  C4, as the code has it.  With correction 0 and any \<open>int32_t\<close> target, \<open>si5351_Calc\<close>
  returns a multiplier in [24, 36] and a PLL frequency \<open>Fxtal \<times> (mult + num/denom)\<close> in
  [600 MHz, 900 MHz].  \<open>si5351_CalcIQ\<close> returns a multiplier in [7, 36]; it is at least 24,
  and the PLL frequency is in [600 MHz, 900 MHz], exactly when the target is at least
  4,724,410 Hz: below that the planner keeps the divider 127 and runs the PLL under 600 MHz.
\<close>

theorem planner_multiplier_range:
  "(\<exists>p' out'. si5351_Calc 0 Fclk p out = Some (p', out')
      \<and> 24 \<le> sint (pll_mult p') \<and> sint (pll_mult p') \<le> 36
      \<and> 600000000 \<le> pll_frequency p' \<and> pll_frequency p' \<le> 900000000)
   \<and> (\<exists>p' out'. si5351_CalcIQ 0 Fclk p out = Some (p', out')
      \<and> 7 \<le> sint (pll_mult p') \<and> sint (pll_mult p') \<le> 36
      \<and> (24 \<le> sint (pll_mult p') \<longleftrightarrow> 4724410 \<le> sint Fclk)
      \<and> (4724410 \<le> sint Fclk
           \<longrightarrow> 600000000 \<le> pll_frequency p' \<and> pll_frequency p' \<le> 900000000))"
  using Calc_multiplier [of Fclk p out] CalcIQ_multiplier [of Fclk p out] by (rule conjI)

theorem planner_multiplier_range_witness:
  "4724410 \<le> sint (7000000 :: int32)
   \<and> (\<exists>p' out'. si5351_CalcIQ 0 7000000
          \<lparr>pll_allowIntegerMode = False, pll_mult = 0, pll_num = 0, pll_denom = 0\<rparr>
          \<lparr>out_allowIntegerMode = False, out_inverted = 0, out_div = 0, out_num = 0,
           out_denom = 0, out_rdiv = 0\<rparr> = Some (p', out')
        \<and> 24 \<le> sint (pll_mult p') \<and> sint (pll_mult p') \<le> 36
        \<and> 600000000 \<le> pll_frequency p' \<and> pll_frequency p' \<le> 900000000)
   \<and> (\<exists>p' out'. si5351_Calc 0 7000000
          \<lparr>pll_allowIntegerMode = False, pll_mult = 0, pll_num = 0, pll_denom = 0\<rparr>
          \<lparr>out_allowIntegerMode = False, out_inverted = 0, out_div = 0, out_num = 0,
           out_denom = 0, out_rdiv = 0\<rparr> = Some (p', out')
        \<and> 24 \<le> sint (pll_mult p') \<and> sint (pll_mult p') \<le> 36)"
proof -
  have h: "4724410 \<le> sint (7000000 :: int32)" by simp
  show ?thesis
    using h planner_multiplier_range [of 7000000
          "\<lparr>pll_allowIntegerMode = False, pll_mult = 0, pll_num = 0, pll_denom = 0\<rparr>"
          "\<lparr>out_allowIntegerMode = False, out_inverted = 0, out_div = 0, out_num = 0,
           out_denom = 0, out_rdiv = 0\<rparr>"]
    by blast
qed

text \<open>
  The claim as stated fails for the quadrature planner: at 1.4 MHz it returns the multiplier
  7, and a PLL frequency below 600 MHz.
\<close>

theorem planner_multiplier_range_counterexample:
  "si5351_CalcIQ 0 1400000
      \<lparr>pll_allowIntegerMode = False, pll_mult = 0, pll_num = 0, pll_denom = 0\<rparr>
      \<lparr>out_allowIntegerMode = False, out_inverted = 0, out_div = 0, out_num = 0,
       out_denom = 0, out_rdiv = 0\<rparr> =
     Some (\<lparr>pll_allowIntegerMode = False, pll_mult = 7, pll_num = 116666, pll_denom = 1041666\<rparr>,
           \<lparr>out_allowIntegerMode = False, out_inverted = 0, out_div = 127, out_num = 0,
            out_denom = 1, out_rdiv = 0\<rparr>)
   \<and> sint (7 :: int32) < 24
   \<and> pll_frequency
        \<lparr>pll_allowIntegerMode = False, pll_mult = 7, pll_num = 116666, pll_denom = 1041666\<rparr>
       < 600000000"
  by (simp add: si5351_CalcIQ_def CalcIQ_Fclk_def apply_correction_0 word_sless_alt
      c_div_def sdiv32_def smod32_def signed_divide_int_def signed_modulo_int_def
      register_defs pll_frequency_def)

end
